theory Spec2Isabelle
  imports Main "HOL-Library.Sublist"
begin

section \<open>setup-opentap: a shallow embedding of \<open>src/index.js\<close>\<close>

text \<open>
  The action is one sequential script. Its pure parts (the two settings generators, the
  parsing of the \<open>packages\<close> input, the version pattern) are HOL functions on strings; its
  effects (download, extraction, subprocesses, file writes) are calls to the host, whose
  answers are fields of a record, and every call made is an event of the run's trace.

  JavaScript strings are modelled as \<open>string\<close>. The separators the script looks for
  (\<open>,\<close> \<open>:\<close> \<open>.\<close> and the decimal digits) are ASCII, so splitting and matching agree on
  UTF-16 code units and on bytes. An optional value (\<open>undefined\<close>) is \<open>None\<close>; the
  truthiness test \<open>!!s\<close> on an optional string is "present and not empty".

  The calls that can throw are \<open>tc.downloadTool\<close>, \<open>tc.extractZip\<close>, \<open>exec.exec\<close>,
  \<open>fs.mkdirSync\<close>, \<open>fs.writeFileSync\<close> and \<open>new URL\<close>. The logging calls of
  \<open>@actions/core\<close>, \<open>core.addPath\<close> and \<open>fs.existsSync\<close> are taken not to throw. The
  whole body of \<open>main\<close> is inside its \<open>try\<close>, so the promise it returns is never rejected
  and the handler of line 7 is not part of the model.
\<close>

subsection \<open>JavaScript string and array primitives\<close>

text \<open>\<open>s.split(c)\<close> for a one-character separator: never empty, \<open>"".split(c) = [""]\<close>.\<close>

fun js_split :: "char \<Rightarrow> string \<Rightarrow> string list" where
  "js_split c [] = [[]]"
| "js_split c (x # xs) =
     (if x = c then [] # js_split c xs
      else (case js_split c xs of
              [] \<Rightarrow> [[x]]
            | y # ys \<Rightarrow> (x # y) # ys))"

text \<open>\<open>a[n]\<close> on an array: \<open>undefined\<close> out of range.\<close>

definition js_index :: "'a list \<Rightarrow> nat \<Rightarrow> 'a option" where
  "js_index xs n = (if n < length xs then Some (xs ! n) else None)"

text \<open>\<open>a.join(sep)\<close>.\<close>

fun js_join :: "string \<Rightarrow> string list \<Rightarrow> string" where
  "js_join sep [] = []"
| "js_join sep [x] = x"
| "js_join sep (x # y # ys) = x @ sep @ js_join sep (y # ys)"

text \<open>\<open>!!v\<close> on an optional string.\<close>

fun truthy :: "string option \<Rightarrow> bool" where
  "truthy None = False"
| "truthy (Some s) = (s \<noteq> [])"

subsection \<open>Repository descriptors and the settings generators\<close>

record repository =
  url :: string
  domain :: string
  token :: "string option"

definition AUTH_HEADER :: string where
  \<open>AUTH_HEADER =
     ''<?xml version="1.0" encoding="utf-8"?>\<newline>'' @
     ''<AuthenticationSettings type="OpenTap.Authentication.AuthenticationSettings">\<newline>'' @
     ''  <Tokens type="System.Collections.Generic.List`1[[OpenTap.Authentication.TokenInfo]]">''\<close>

definition AUTH_FOOTER :: string where
  \<open>AUTH_FOOTER = ''  </Tokens>\<newline></AuthenticationSettings>''\<close>

text \<open>The template of lines 22 to 27, with \<open>repo.token\<close> and \<open>repo.domain\<close> spliced in.\<close>

definition TokenInfo :: "string \<Rightarrow> string \<Rightarrow> string" where
  "TokenInfo tok host =
     ''\<newline>    <TokenInfo>\<newline>      <AccessToken>'' @ tok @
     ''</AccessToken>\<newline>      <Domain>'' @ host @
     ''</Domain>\<newline>    </TokenInfo>\<newline>''"

text \<open>One turn of the loop of lines 20 to 29: \<open>xml\<close> grows only for a truthy token.\<close>

definition auth_step :: "string \<Rightarrow> repository \<Rightarrow> string" where
  "auth_step xml repo =
     (case token repo of
        None \<Rightarrow> xml
      | Some t \<Rightarrow> if truthy (Some t) then xml @ TokenInfo t (domain repo) else xml)"

definition GetAuthenticationSettings :: "repository list \<Rightarrow> string" where
  "GetAuthenticationSettings repositories =
     foldl auth_step AUTH_HEADER repositories @ AUTH_FOOTER"

definition PM_HEADER :: string where
  \<open>PM_HEADER =
     ''<?xml version="1.0" encoding="utf-8"?>\<newline>'' @
     ''<PackageManagerSettings type="OpenTap.Package.PackageManagerSettings">\<newline>'' @
     ''  <UseLocalPackageCache>true</UseLocalPackageCache>\<newline>'' @
     ''  <ShowIncompatiblePackages>false</ShowIncompatiblePackages>\<newline>'' @
     ''  <CheckForUpdates>false</CheckForUpdates>\<newline>'' @
     ''  <Repositories>\<newline>''\<close>

definition PM_FOOTER :: string where
  \<open>PM_FOOTER = ''  </Repositories>\<newline></PackageManagerSettings>''\<close>

definition RepositorySettingEntry :: "string \<Rightarrow> string" where
  "RepositorySettingEntry u =
     ''    <RepositorySettingEntry>\<newline>      <Url>'' @ u @
     ''</Url>\<newline>      <IsEnabled>true</IsEnabled>\<newline>    </RepositorySettingEntry>\<newline>''"

definition GetPackageManagerSettings :: "repository list \<Rightarrow> string" where
  "GetPackageManagerSettings repositories =
     foldl (\<lambda>xml repo. xml @ RepositorySettingEntry (url repo)) PM_HEADER repositories
       @ PM_FOOTER"

subsection \<open>Parsing the \<open>packages\<close> input (lines 187 to 196)\<close>

record package_ref =
  Name :: "string option"
  Version :: "string option"

text \<open>The body of the loop: both fields are array reads of \<open>pkgSpecs[i].split(":")\<close>.\<close>

definition package_of_spec :: "string \<Rightarrow> package_ref" where
  "package_of_spec spec =
     \<lparr>Name = js_index (js_split CHR '':'' spec) 0,
      Version = js_index (js_split CHR '':'' spec) 1\<rparr>"

definition parse_packages :: "string \<Rightarrow> package_ref list" where
  "parse_packages packages =
     foldl (\<lambda>Packages spec. Packages @ [package_of_spec spec]) []
       (js_split CHR '','' packages)"

subsection \<open>The version pattern and the compatibility rule (lines 165 to 170)\<close>

definition is_digit :: "char \<Rightarrow> bool" where
  "is_digit c = (c \<in> set ''0123456789'')"

record version_groups =
  major :: string
  minor :: string
  patch :: "string option"

text \<open>
  \<open>/^(?<major>\d+)\.(?<minor>\d+)(\.(?<patch>\d+))?.*/.exec(version)\<close>, with \<open>None\<close> for
  \<open>null\<close>. Every \<open>\d+\<close> is greedy and is followed by something a digit cannot match or
  by the optional group and \<open>.*\<close>, which match the empty string; so the first match the
  backtracking engine finds takes each run of digits whole, the optional group takes part
  exactly when a dot and a digit follow the minor run, and no suffix makes the match fail.
\<close>

definition majorMinorPattern_exec :: "string \<Rightarrow> version_groups option" where
  "majorMinorPattern_exec v =
     (let ma = takeWhile is_digit v; r1 = dropWhile is_digit v in
      if ma = [] then None
      else (case r1 of
              [] \<Rightarrow> None
            | d1 # r2 \<Rightarrow>
                if d1 \<noteq> CHR ''.'' then None
                else (let mi = takeWhile is_digit r2; r3 = dropWhile is_digit r2 in
                      if mi = [] then None
                      else (case r3 of
                              [] \<Rightarrow> Some \<lparr>major = ma, minor = mi, patch = None\<rparr>
                            | d2 # r4 \<Rightarrow>
                                if d2 = CHR ''.'' \<and> takeWhile is_digit r4 \<noteq> []
                                then Some \<lparr>major = ma, minor = mi,
                                           patch = Some (takeWhile is_digit r4)\<rparr>
                                else Some \<lparr>major = ma, minor = mi, patch = None\<rparr>))))"

text \<open>
  \<open>Number(s)\<close> on a string of decimal digits, as a natural number. JavaScript rounds the
  value to a double; rounding is monotone and exact below \<open>2^53\<close>, so the comparisons
  with 21 and 1 below have the same outcome on the natural number.
\<close>

definition digit_value :: "char \<Rightarrow> nat" where
  "digit_value c = of_char c - 48"

definition Number :: "string \<Rightarrow> nat" where
  "Number s = foldl (\<lambda>n c. 10 * n + digit_value c) 0 s"

text \<open>The condition of line 170.\<close>

definition too_old :: "version_groups \<Rightarrow> bool" where
  "too_old g =
     (Number (minor g) < 21 \<or>
      (Number (minor g) = 21 \<and> truthy (patch g) \<and>
       (case patch g of None \<Rightarrow> False | Some p \<Rightarrow> Number p < 1)))"

subsection \<open>Inputs, host and trace\<close>

text \<open>The values \<open>core.getInput\<close> returns: the empty string when an input is not set.\<close>

record inputs =
  inp_version :: string
  inp_architecture :: string
  inp_os :: string
  inp_packages :: string
  inp_token :: string
  inp_additional_repository :: string
  inp_additional_repository_token :: string

record image =
  Packages :: "package_ref list"
  Repositories :: "string list"

text \<open>
  What the runner answers. A call that can throw answers \<open>Some message\<close> (or \<open>Inl message\<close>)
  when it does. Each call of one run has its own arguments, so a function of the
  arguments describes any run. \<open>URL_host u\<close> is \<open>new URL(u).host\<close>, \<open>JSON_stringify\<close> is
  \<open>JSON.stringify(image, null, 2)\<close>, and \<open>null_groups_message\<close> is the text of the
  \<open>TypeError\<close> the engine raises on \<open>match.groups\<close> when \<open>match\<close> is \<open>null\<close>.
\<close>

record host =
  os_platform :: string
  os_arch :: string
  downloadTool :: "string \<Rightarrow> string + string"
  tc_extractZip :: "string \<Rightarrow> string \<Rightarrow> string option"
  exec :: "string \<Rightarrow> string list \<Rightarrow> string option"
  existsSync :: "string \<Rightarrow> bool"
  mkdirSync :: "string \<Rightarrow> string option"
  writeFileSync :: "string \<Rightarrow> string \<Rightarrow> string option"
  URL_host :: "string \<Rightarrow> string + string"
  JSON_stringify :: "image \<Rightarrow> string"
  null_groups_message :: string

datatype event =
    Info string
  | Debug string
  | DownloadTool string
  | ExtractZip string string
  | Exec string "string list"
  | ExistsSync string
  | MkdirSync string
  | AddPath string
  | WriteFileSync string string
  | SetFailed string

text \<open>
  Why a run stops early: the two \<open>setFailed; return\<close> of lines 119 and 171, or an error
  caught by the handler of line 213.
\<close>

datatype stop = Extract_failed | Version_too_old | Uncaught string

fun failure_message :: "stop \<Rightarrow> string" where
  "failure_message Extract_failed = ''Unable to extract zip archive.''"
| "failure_message Version_too_old =
     ''repository-token support requires OpenTAP 9.22.0 or greater.''"
| "failure_message (Uncaught m) = m"

type_synonym 'a run = "event list \<times> (stop + 'a)"

definition andThen :: "'a run \<Rightarrow> ('a \<Rightarrow> 'b run) \<Rightarrow> 'b run" where
  "andThen m k =
     (case m of
        (l, Inl s) \<Rightarrow> (l, Inl s)
      | (l, Inr a) \<Rightarrow> (case k a of (l', r) \<Rightarrow> (l @ l', r)))"

definition emit :: "event \<Rightarrow> unit run" where
  "emit e = ([e], Inr ())"

definition done_ok :: "'a \<Rightarrow> 'a run" where
  "done_ok a = ([], Inr a)"

definition stop_with :: "stop \<Rightarrow> 'a run" where
  "stop_with s = ([], Inl s)"

definition thrown :: "string option \<Rightarrow> stop + unit" where
  "thrown r = (case r of None \<Rightarrow> Inr () | Some m \<Rightarrow> Inl (Uncaught m))"

definition call_exec :: "host \<Rightarrow> string \<Rightarrow> string list \<Rightarrow> unit run" where
  "call_exec h cmd as = ([Exec cmd as], thrown (exec h cmd as))"

definition call_mkdirSync :: "host \<Rightarrow> string \<Rightarrow> unit run" where
  "call_mkdirSync h d = ([MkdirSync d], thrown (mkdirSync h d))"

definition call_writeFileSync :: "host \<Rightarrow> string \<Rightarrow> string \<Rightarrow> unit run" where
  "call_writeFileSync h f c = ([WriteFileSync f c], thrown (writeFileSync h f c))"

definition call_existsSync :: "host \<Rightarrow> string \<Rightarrow> bool run" where
  "call_existsSync h d = ([ExistsSync d], Inr (existsSync h d))"

definition call_downloadTool :: "host \<Rightarrow> string \<Rightarrow> string run" where
  "call_downloadTool h u =
     ([DownloadTool u],
      case downloadTool h u of Inl m \<Rightarrow> Inl (Uncaught m) | Inr f \<Rightarrow> Inr f)"

definition call_URL_host :: "host \<Rightarrow> string \<Rightarrow> string run" where
  "call_URL_host h u =
     ([], case URL_host h u of Inl m \<Rightarrow> Inl (Uncaught m) | Inr d \<Rightarrow> Inr d)"

subsection \<open>Platform, download arguments and extraction\<close>

datatype platform = linux | windows | macos

fun tag :: "platform \<Rightarrow> string" where
  "tag linux = ''linux''"
| "tag windows = ''windows''"
| "tag macos = ''macos''"

fun INSTALL_DIRS :: "platform \<Rightarrow> string" where
  "INSTALL_DIRS linux = ''/opt/tap''"
| "INSTALL_DIRS windows = ''C:/Program Files/OpenTAP''"
| "INSTALL_DIRS macos = ''/Users/runner/Library/OpenTAP''"

text \<open>The \<open>switch\<close> of lines 83 to 93.\<close>

definition detect_platform :: "string \<Rightarrow> platform" where
  "detect_platform platformString =
     (if platformString = ''darwin'' then macos
      else if platformString = ''win32'' then windows
      else linux)"

text \<open>Lines 95 to 104: the pushes onto \<open>args\<close>, in order.\<close>

definition download_args :: "host \<Rightarrow> inputs \<Rightarrow> string list" where
  "download_args h i =
     (let platform = detect_platform (os_platform h);
          args0 = [];
          args1 = (if inp_version i \<noteq> [] then args0 @ [''version='' @ inp_version i]
                   else args0);
          args2 = (if inp_architecture i \<noteq> []
                   then args1 @ [''architecture='' @ inp_architecture i]
                   else args1 @ [''architecture='' @
                                   (if os_arch h = ''x32'' then ''x86'' else ''x64'')]);
          args3 = (if inp_os i \<noteq> [] then args2 @ [''os='' @ inp_os i]
                   else args2 @ [''os='' @ tag platform])
      in args3)"

definition download_url :: "host \<Rightarrow> inputs \<Rightarrow> string" where
  "download_url h i =
     ''https://packages.opentap.io/3.0/DownloadPackage/OpenTAP?'' @
       js_join ''&'' (download_args h i)"

definition destDir :: "host \<Rightarrow> string" where
  "destDir h = INSTALL_DIRS (detect_platform (os_platform h))"

definition settingsDir :: "host \<Rightarrow> string" where
  "settingsDir h = destDir h @ ''/Settings/''"

definition pwsh_args :: "string \<Rightarrow> string \<Rightarrow> string list" where
  \<open>pwsh_args file dest =
     [''-c'', ''Expand-Archive -Path "'' @ file @ ''" -DestinationPath "'' @ dest @ ''"'']\<close>

text \<open>\<open>extractZip\<close> (lines 57 to 76): it catches both errors and answers a boolean.\<close>

definition extractZip :: "host \<Rightarrow> string \<Rightarrow> string \<Rightarrow> bool run" where
  "extractZip h file dest =
     (case tc_extractZip h file dest of
        None \<Rightarrow> ([ExtractZip file dest], Inr True)
      | Some _ \<Rightarrow>
          (case exec h ''pwsh'' (pwsh_args file dest) of
             None \<Rightarrow> ([ExtractZip file dest, Exec ''pwsh'' (pwsh_args file dest)], Inr True)
           | Some _ \<Rightarrow>
               ([ExtractZip file dest, Exec ''pwsh'' (pwsh_args file dest)], Inr False)))"

subsection \<open>Installing packages (lines 138 to 208)\<close>

text \<open>Lines 147 and 148.\<close>

definition resolve_additional_repository :: "string \<Rightarrow> string" where
  "resolve_additional_repository additionalRepository =
     (if \<not> prefix ''http'' additionalRepository
      then ''https://'' @ additionalRepository
      else additionalRepository)"

text \<open>
  The first descriptor; \<open>new URL("https://packages.opentap.io").host\<close> is the constant
  \<open>packages.opentap.io\<close>.
\<close>

definition default_repository :: "inputs \<Rightarrow> repository" where
  "default_repository i =
     \<lparr>url = ''https://packages.opentap.io'',
      domain = ''packages.opentap.io'',
      token = Some (inp_token i)\<rparr>"

text \<open>Lines 138 to 160: the descriptors, and \<open>Package Manager.xml\<close> when a second one is set.\<close>

definition collect_repositories :: "host \<Rightarrow> inputs \<Rightarrow> repository list run" where
  "collect_repositories h i =
     (let repositories = [default_repository i];
          additionalRepository = inp_additional_repository i
      in if additionalRepository \<noteq> [] then
           (let u = resolve_additional_repository additionalRepository in
            andThen (call_URL_host h u) (\<lambda>d.
            let repositories' =
                  repositories @
                    [\<lparr>url = u, domain = d,
                      token = Some (inp_additional_repository_token i)\<rparr>];
                destFile = settingsDir h @ ''Package Manager.xml''
            in andThen (call_writeFileSync h destFile
                          (GetPackageManagerSettings repositories')) (\<lambda>_.
               andThen (emit (Debug (''Wrote package manager settings to '' @ destFile)))
                 (\<lambda>_. done_ok repositories'))))
         else done_ok repositories)"

text \<open>Lines 164 to 176. A version that does not match throws on \<open>match.groups\<close>.\<close>

definition version_gate :: "host \<Rightarrow> string \<Rightarrow> bool \<Rightarrow> unit run" where
  "version_gate h version hasToken =
     (if version \<noteq> [] \<and> hasToken then
        (case majorMinorPattern_exec version of
           None \<Rightarrow> stop_with (Uncaught (null_groups_message h))
         | Some g \<Rightarrow> if too_old g then stop_with Version_too_old else done_ok ())
      else done_ok ())"

definition install_args :: "string list" where
  "install_args = [''image'', ''install'', ''image.json'', ''--non-interactive'', ''--merge'']"

definition install_packages :: "host \<Rightarrow> inputs \<Rightarrow> unit run" where
  "install_packages h i =
     andThen (collect_repositories h i) (\<lambda>repositories.
     let hasToken = list_ex (\<lambda>r. truthy (token r)) repositories in
     andThen (version_gate h (inp_version i) hasToken) (\<lambda>_.
     andThen (if hasToken then
                (let destFile = settingsDir h @ ''AuthenticationSettings.xml'' in
                 andThen (call_writeFileSync h destFile
                            (GetAuthenticationSettings repositories)) (\<lambda>_.
                 emit (Debug (''Wrote authentication settings to '' @ destFile))))
              else done_ok ()) (\<lambda>_.
     let image = \<lparr>Packages = parse_packages (inp_packages i),
                  Repositories = map url repositories\<rparr>;
         imageJson = JSON_stringify h image
     in andThen (call_writeFileSync h ''image.json'' imageJson) (\<lambda>_.
        andThen (emit (Debug (''Image: '' @ imageJson))) (\<lambda>_.
        call_exec h ''tap'' install_args)))))"

subsection \<open>\<open>main\<close> (lines 78 to 216)\<close>

definition list_args :: "string list" where
  "list_args = [''package'', ''list'', ''--installed'']"

text \<open>Lines 80 to 134: download, extract, configure, add to the path.\<close>

definition install_opentap :: "host \<Rightarrow> inputs \<Rightarrow> unit run" where
  "install_opentap h i =
     (let platform = detect_platform (os_platform h);
          args = download_args h i
      in andThen (emit (Info (''Downloading OpenTAP: '' @ js_join '','' args))) (\<lambda>_.
         andThen (call_downloadTool h (download_url h i)) (\<lambda>downloadedFilepath.
         andThen (emit (Info (''Unzipping OpenTAP: '' @ downloadedFilepath))) (\<lambda>_.
         andThen (extractZip h downloadedFilepath (destDir h)) (\<lambda>extracted.
         if \<not> extracted then stop_with Extract_failed
         else
         andThen (call_existsSync h (settingsDir h)) (\<lambda>exists.
         andThen (if \<not> exists then call_mkdirSync h (settingsDir h) else done_ok ()) (\<lambda>_.
         andThen (emit (Info ''Configuring OpenTAP'')) (\<lambda>_.
         andThen (if platform \<noteq> windows
                  then call_exec h ''chmod'' [''+x'', destDir h @ ''/tap'']
                  else done_ok ()) (\<lambda>_.
         emit (AddPath (destDir h)))))))))))"

text \<open>The body of the \<open>try\<close> block: lines 80 to 134, then 137 to 209, then 212.\<close>

definition main_body :: "host \<Rightarrow> inputs \<Rightarrow> unit run" where
  "main_body h i =
     andThen (install_opentap h i) (\<lambda>_.
     andThen (if inp_packages i \<noteq> [] then install_packages h i else done_ok ()) (\<lambda>_.
     call_exec h ''tap'' list_args))"

text \<open>The trace of a run: the calls made, then \<open>core.setFailed\<close> when the run stopped early.\<close>

definition main :: "host \<Rightarrow> inputs \<Rightarrow> event list" where
  "main h i =
     (case main_body h i of
        (l, Inl s) \<Rightarrow> l @ [SetFailed (failure_message s)]
      | (l, Inr _) \<Rightarrow> l)"

subsection \<open>Notions used to state the properties\<close>

text \<open>How often a pattern occurs in a text, overlapping occurrences included.\<close>

fun occurrences :: "string \<Rightarrow> string \<Rightarrow> nat" where
  "occurrences p [] = 0"
| "occurrences p (x # xs) = (if prefix p (x # xs) then 1 else 0) + occurrences p xs"

text \<open>A non-empty run of decimal digits, and a text whose first character is a digit.\<close>

definition digits :: "string \<Rightarrow> bool" where
  "digits s = (s \<noteq> [] \<and> list_all is_digit s)"

definition starts_with_digit :: "string \<Rightarrow> bool" where
  "starts_with_digit s = (case s of [] \<Rightarrow> False | c # _ \<Rightarrow> is_digit c)"

text \<open>Lines 80 to 134 ran to their end: OpenTAP is downloaded, extracted and on the path.\<close>

definition installed :: "host \<Rightarrow> inputs \<Rightarrow> bool" where
  "installed h i = (snd (install_opentap h i) = Inr ())"

text \<open>
  A Linux runner on which every call succeeds, the same runner with neither \<open>unzip\<close> nor
  \<open>pwsh\<close>, and some inputs.
\<close>

definition runner :: host where
  "runner =
     \<lparr>os_platform = ''linux'', os_arch = ''x64'',
      downloadTool = (\<lambda>u. Inr ''/tmp/opentap.zip''),
      tc_extractZip = (\<lambda>f d. None),
      exec = (\<lambda>c as. None),
      existsSync = (\<lambda>d. False),
      mkdirSync = (\<lambda>d. None),
      writeFileSync = (\<lambda>f c. None),
      URL_host = (\<lambda>u. Inr ''foo.com''),
      JSON_stringify = (\<lambda>im. ''{}''),
      null_groups_message = ''Cannot read properties of null''\<rparr>"

definition bare_runner :: host where
  "bare_runner =
     runner\<lparr>tc_extractZip := (\<lambda>f d. Some ''unzip: not found''),
            exec := (\<lambda>c as. if c = ''pwsh'' then Some ''pwsh: not found'' else None)\<rparr>"

definition demo_inputs :: inputs where
  "demo_inputs =
     \<lparr>inp_version = ''9.21.1'', inp_architecture = [], inp_os = [],
      inp_packages = ''Demonstration'', inp_token = ''abc'',
      inp_additional_repository = [], inp_additional_repository_token = []\<rparr>"

definition old_inputs :: inputs where
  "old_inputs = demo_inputs\<lparr>inp_version := ''9.20.3''\<rparr>"

definition latest_inputs :: inputs where
  "latest_inputs = demo_inputs\<lparr>inp_version := ''latest''\<rparr>"

definition no_packages_inputs :: inputs where
  "no_packages_inputs =
     \<lparr>inp_version = ''9.20.3'', inp_architecture = [], inp_os = [],
      inp_packages = [], inp_token = ''abc'',
      inp_additional_repository = ''foo.com/repo'',
      inp_additional_repository_token = ''xyz''\<rparr>"

definition windows_inputs :: inputs where
  "windows_inputs = no_packages_inputs\<lparr>inp_os := ''windows''\<rparr>"

section \<open>Properties\<close>

subsection \<open>Splitting and joining\<close>

lemma js_split_not_Nil: "js_split c s \<noteq> []"
  by (induction s) (auto split: list.splits)

lemma js_split_unfold:
  "js_split c s =
     takeWhile (\<lambda>x. x \<noteq> c) s #
       (case dropWhile (\<lambda>x. x \<noteq> c) s of [] \<Rightarrow> [] | _ # rest \<Rightarrow> js_split c rest)"
proof (induction s)
  case Nil
  show ?case by simp
next
  case (Cons x xs)
  show ?case
  proof (cases "x = c")
    case True
    then show ?thesis by simp
  next
    case False
    obtain y ys where split_xs: "js_split c xs = y # ys"
      using js_split_not_Nil [of c xs] by (cases "js_split c xs") auto
    from Cons split_xs False show ?thesis by simp
  qed
qed

lemma js_split_append:
  "js_split c (a @ c # b) = js_split c a @ js_split c b"
proof (induction a)
  case Nil
  show ?case by simp
next
  case (Cons x xs)
  obtain y ys where split_xs: "js_split c xs = y # ys"
    using js_split_not_Nil [of c xs] by (cases "js_split c xs") auto
  from Cons split_xs show ?case by simp
qed

lemma js_split_no_separator: "seg \<in> set (js_split c s) \<Longrightarrow> c \<notin> set seg"
proof (induction s arbitrary: seg)
  case Nil
  then show ?case by simp
next
  case (Cons x xs)
  obtain y ys where split_xs: "js_split c xs = y # ys"
    using js_split_not_Nil [of c xs] by (cases "js_split c xs") auto
  show ?case
  proof (cases "x = c")
    case True
    with Cons show ?thesis by auto
  next
    case False
    with Cons.prems split_xs have "seg = x # y \<or> seg \<in> set ys" by simp
    then show ?thesis
    proof
      assume "seg = x # y"
      moreover have "c \<notin> set y" using Cons.IH [of y] split_xs by simp
      ultimately show ?thesis using False by simp
    next
      assume "seg \<in> set ys"
      then show ?thesis using Cons.IH [of seg] split_xs by simp
    qed
  qed
qed

lemma js_join_split: "js_join [c] (js_split c s) = s"
proof (induction s)
  case Nil
  show ?case by simp
next
  case (Cons x xs)
  obtain y ys where split_xs: "js_split c xs = y # ys"
    using js_split_not_Nil [of c xs] by (cases "js_split c xs") auto
  show ?case
  proof (cases "x = c")
    case True
    with Cons split_xs show ?thesis by simp
  next
    case False
    with Cons split_xs show ?thesis by (cases ys) auto
  qed
qed

lemma foldl_snoc_map: "foldl (\<lambda>acc x. acc @ [f x]) acc xs = acc @ map f xs"
  by (induction xs arbitrary: acc) auto

lemma parse_packages_map: "parse_packages s = map package_of_spec (js_split CHR '','' s)"
  by (simp add: parse_packages_def foldl_snoc_map)

lemma js_split_no_sep:
  "dropWhile (\<lambda>x. x \<noteq> c) s = [] \<Longrightarrow> js_split c s = [takeWhile (\<lambda>x. x \<noteq> c) s]"
  by (subst js_split_unfold) (simp only: list.case)

lemma js_split_sep:
  "dropWhile (\<lambda>x. x \<noteq> c) s = z # rest \<Longrightarrow>
   js_split c s = takeWhile (\<lambda>x. x \<noteq> c) s # js_split c rest"
  by (subst js_split_unfold) (simp only: list.case)

lemma package_of_spec_eq:
  "package_of_spec spec =
     \<lparr>Name = Some (takeWhile (\<lambda>c. c \<noteq> CHR '':'') spec),
      Version = (case dropWhile (\<lambda>c. c \<noteq> CHR '':'') spec of
                   [] \<Rightarrow> None
                 | _ # rest \<Rightarrow> Some (takeWhile (\<lambda>c. c \<noteq> CHR '':'') rest))\<rparr>"
proof (cases "dropWhile (\<lambda>c. c \<noteq> CHR '':'') spec")
  case Nil
  from js_split_no_sep [OF Nil] show ?thesis
    unfolding package_of_spec_def js_index_def Nil by simp
next
  case (Cons z rest)
  obtain y ys where split_rest: "js_split CHR '':'' rest = y # ys"
    using js_split_not_Nil [of "CHR '':''" rest] by (cases "js_split CHR '':'' rest") auto
  have "y = takeWhile (\<lambda>c. c \<noteq> CHR '':'') rest"
    using split_rest js_split_unfold [of "CHR '':''" rest] by simp
  with js_split_sep [OF Cons] split_rest show ?thesis
    unfolding package_of_spec_def js_index_def Cons by simp
qed

lemma foldl_auth_step:
  "foldl auth_step acc rs =
     acc @ concat (map (\<lambda>r. TokenInfo (the (token r)) (domain r))
                     (filter (\<lambda>r. truthy (token r)) rs))"
  by (induction rs arbitrary: acc) (auto simp: auth_step_def split: option.splits)

subsection \<open>Counting entries\<close>

lemma occurrences_skip:
  "c \<notin> set a \<Longrightarrow> occurrences (c # p) (a @ b) = occurrences (c # p) b"
  by (induction a) auto

lemma occurrences_TokenInfo:
  assumes "CHR ''<'' \<notin> set tok" and "CHR ''<'' \<notin> set host"
  shows "occurrences ''<TokenInfo>'' (TokenInfo tok host @ rest)
           = Suc (occurrences ''<TokenInfo>'' rest)"
  using assms by (simp add: TokenInfo_def occurrences_skip)

lemma occurrences_entries:
  assumes "\<forall>r \<in> set rs. CHR ''<'' \<notin> set (the (token r)) \<and> CHR ''<'' \<notin> set (domain r)"
  shows "occurrences ''<TokenInfo>''
           (concat (map (\<lambda>r. TokenInfo (the (token r)) (domain r)) rs) @ rest)
         = length rs + occurrences ''<TokenInfo>'' rest"
  using assms by (induction rs) (simp_all add: occurrences_TokenInfo)

lemma occurrences_AUTH_FOOTER: "occurrences ''<TokenInfo>'' AUTH_FOOTER = 0"
  by (simp add: AUTH_FOOTER_def)

lemma occurrences_AUTH_HEADER:
  "occurrences ''<TokenInfo>'' (AUTH_HEADER @ rest) = occurrences ''<TokenInfo>'' rest"
  by (simp add: AUTH_HEADER_def)

subsection \<open>Runs\<close>

lemma fst_andThen:
  "fst (andThen m k) = (case snd m of Inl s \<Rightarrow> fst m | Inr a \<Rightarrow> fst m @ fst (k a))"
  by (cases m) (auto simp: andThen_def split: sum.splits prod.splits)

lemma snd_andThen:
  "snd (andThen m k) = (case snd m of Inl s \<Rightarrow> Inl s | Inr a \<Rightarrow> snd (k a))"
  by (cases m) (auto simp: andThen_def split: sum.splits prod.splits)

lemmas run_simps =
  fst_andThen snd_andThen emit_def done_ok_def stop_with_def thrown_def call_exec_def
  call_mkdirSync_def call_writeFileSync_def call_existsSync_def call_downloadTool_def
  call_URL_host_def

lemma snd_version_gate:
  "snd (version_gate h v t) = Inl Version_too_old \<longleftrightarrow>
     v \<noteq> [] \<and> t \<and> (\<exists>g. majorMinorPattern_exec v = Some g \<and> too_old g)"
  by (auto simp: version_gate_def run_simps split: option.splits)

lemma fst_version_gate: "fst (version_gate h v t) = []"
  by (auto simp: version_gate_def run_simps split: option.splits)

lemma snd_collect_repositories_not_too_old:
  "snd (collect_repositories h i) \<noteq> Inl Version_too_old"
  by (auto simp: collect_repositories_def Let_def run_simps split: option.splits sum.splits)

lemma install_packages_too_old:
  assumes "snd (install_packages h i) = Inl Version_too_old"
  shows "fst (install_packages h i) = fst (collect_repositories h i)"
proof (cases "snd (collect_repositories h i)")
  case (Inl s)
  then show ?thesis by (simp add: install_packages_def fst_andThen)
next
  case (Inr repos)
  let ?t = "list_ex (\<lambda>r. truthy (token r)) repos"
  have gate: "snd (version_gate h (inp_version i) ?t) = Inl Version_too_old"
  proof (rule ccontr)
    assume neq: "snd (version_gate h (inp_version i) ?t) \<noteq> Inl Version_too_old"
    show False
    proof (cases "snd (version_gate h (inp_version i) ?t)")
      case (Inl s)
      with assms Inr neq show False
        by (simp add: install_packages_def snd_andThen Let_def)
    next
      case (Inr u)
      with assms \<open>snd (collect_repositories h i) = Inr repos\<close> show False
        by (simp add: install_packages_def run_simps Let_def split: if_splits sum.splits option.splits)
    qed
  qed
  with Inr show ?thesis
    by (simp add: install_packages_def fst_andThen Let_def fst_version_gate)
qed

lemma install_opentap_download_fails:
  assumes "downloadTool h (download_url h i) = Inl m"
  shows "install_opentap h i =
           ([Info (''Downloading OpenTAP: '' @ js_join '','' (download_args h i)),
             DownloadTool (download_url h i)], Inl (Uncaught m))"
  using assms by (simp add: install_opentap_def Let_def andThen_def emit_def call_downloadTool_def)

lemma install_opentap_extract_fails:
  assumes "downloadTool h (download_url h i) = Inr f"
    and "tc_extractZip h f (destDir h) = Some e1"
    and "exec h ''pwsh'' (pwsh_args f (destDir h)) = Some e2"
  shows "install_opentap h i =
           ([Info (''Downloading OpenTAP: '' @ js_join '','' (download_args h i)),
             DownloadTool (download_url h i),
             Info (''Unzipping OpenTAP: '' @ f),
             ExtractZip f (destDir h),
             Exec ''pwsh'' (pwsh_args f (destDir h))], Inl Extract_failed)"
  using assms
  by (simp add: install_opentap_def Let_def andThen_def emit_def call_downloadTool_def
      extractZip_def stop_with_def)

lemma install_opentap_event:
  assumes "e \<in> set (fst (install_opentap h i))"
  shows "(\<exists>m. e = Info m) \<or> e = DownloadTool (download_url h i) \<or>
         (\<exists>f. downloadTool h (download_url h i) = Inr f \<and>
              (e = ExtractZip f (destDir h) \<or>
               (e = Exec ''pwsh'' (pwsh_args f (destDir h)) \<and>
                tc_extractZip h f (destDir h) \<noteq> None))) \<or>
         e = ExistsSync (settingsDir h) \<or> e = MkdirSync (settingsDir h) \<or>
         e = Exec ''chmod'' [''+x'', destDir h @ ''/tap''] \<or> e = AddPath (destDir h)"
  using assms
  by (auto simp: install_opentap_def Let_def run_simps extractZip_def
      split: sum.splits option.splits if_splits)

lemma install_opentap_not_too_old:
  "snd (install_opentap h i) \<noteq> Inl Version_too_old"
  by (auto simp: install_opentap_def Let_def run_simps extractZip_def
      split: sum.splits option.splits if_splits)

lemma andThen_event:
  assumes "e \<in> set (fst (andThen m k))"
  obtains "e \<in> set (fst m)" | a where "snd m = Inr a" and "e \<in> set (fst (k a))"
  using assms by (auto simp: fst_andThen split: sum.splits)

lemma collect_repositories_event:
  assumes "e \<in> set (fst (collect_repositories h i))"
  shows "(\<exists>c. e = WriteFileSync (settingsDir h @ ''Package Manager.xml'') c) \<or> (\<exists>m. e = Debug m)"
  using assms
  by (auto simp: collect_repositories_def Let_def run_simps split: option.splits sum.splits if_splits)

lemma install_packages_event:
  assumes "e \<in> set (fst (install_packages h i))"
  shows "(\<exists>c. e = WriteFileSync (settingsDir h @ ''Package Manager.xml'') c) \<or>
         (\<exists>c. e = WriteFileSync (settingsDir h @ ''AuthenticationSettings.xml'') c) \<or>
         (\<exists>c. e = WriteFileSync ''image.json'' c) \<or>
         (\<exists>m. e = Debug m) \<or> e = Exec ''tap'' install_args"
  using assms unfolding install_packages_def Let_def
  apply (elim andThen_event)
        apply (drule collect_repositories_event, blast)
       apply (simp add: fst_version_gate)
      apply (auto simp: run_simps split: if_splits sum.splits option.splits)
  done

lemma thrown_not_early: "thrown r \<noteq> Inl Version_too_old" "thrown r \<noteq> Inl Extract_failed"
  by (auto simp: thrown_def split: option.splits)

lemma main_body_not_installed:
  assumes "snd (install_opentap h i) = Inl s"
  shows "main_body h i = (fst (install_opentap h i), Inl s)"
  using assms by (cases "install_opentap h i") (simp add: main_body_def andThen_def)

lemma main_body_no_packages:
  assumes "snd (install_opentap h i) = Inr u" and "inp_packages i = []"
  shows "main_body h i =
           (fst (install_opentap h i) @ [Exec ''tap'' list_args],
            thrown (exec h ''tap'' list_args))"
  using assms
  by (cases "install_opentap h i") (simp add: main_body_def andThen_def done_ok_def call_exec_def)

lemma main_body_packages_stop:
  assumes "snd (install_opentap h i) = Inr u" and "inp_packages i \<noteq> []"
    and "snd (install_packages h i) = Inl s"
  shows "main_body h i =
           (fst (install_opentap h i) @ fst (install_packages h i), Inl s)"
  using assms
  by (cases "install_opentap h i"; cases "install_packages h i")
     (simp add: main_body_def andThen_def)

lemma main_body_packages_ok:
  assumes "snd (install_opentap h i) = Inr u" and "inp_packages i \<noteq> []"
    and "snd (install_packages h i) = Inr u'"
  shows "main_body h i =
           (fst (install_opentap h i) @ fst (install_packages h i) @ [Exec ''tap'' list_args],
            thrown (exec h ''tap'' list_args))"
  using assms
  by (cases "install_opentap h i"; cases "install_packages h i")
     (simp add: main_body_def andThen_def call_exec_def)

lemma main_trace: "main h i =
  fst (main_body h i) @
    (case snd (main_body h i) of Inl s \<Rightarrow> [SetFailed (failure_message s)] | Inr _ \<Rightarrow> [])"
  by (cases "main_body h i") (auto simp: main_def split: sum.splits)

lemma snd_install_packages_too_old:
  "snd (install_packages h i) = Inl Version_too_old \<longleftrightarrow>
     (\<exists>repos. snd (collect_repositories h i) = Inr repos \<and>
        snd (version_gate h (inp_version i) (list_ex (\<lambda>r. truthy (token r)) repos))
          = Inl Version_too_old)"
proof (cases "snd (collect_repositories h i)")
  case (Inl s)
  with snd_collect_repositories_not_too_old [of h i] show ?thesis
    by (simp add: install_packages_def snd_andThen)
next
  case (Inr repos)
  let ?t = "list_ex (\<lambda>r. truthy (token r)) repos"
  show ?thesis
  proof (cases "snd (version_gate h (inp_version i) ?t)")
    case (Inl s)
    with Inr show ?thesis by (simp add: install_packages_def snd_andThen Let_def)
  next
    case gate_ok: (Inr u)
    with Inr have "snd (install_packages h i) \<noteq> Inl Version_too_old"
      by (simp add: install_packages_def run_simps Let_def
          split: if_splits sum.splits option.splits)
    with Inr gate_ok show ?thesis by simp
  qed
qed

lemma snd_install_packages_not_extract_failed:
  "snd (install_packages h i) \<noteq> Inl Extract_failed"
proof (cases "snd (collect_repositories h i)")
  case (Inl s)
  moreover have "s \<noteq> Extract_failed"
    using Inl
    by (auto simp: collect_repositories_def Let_def run_simps split: option.splits sum.splits if_splits)
  ultimately show ?thesis by (simp add: install_packages_def snd_andThen)
next
  case (Inr repos)
  let ?t = "list_ex (\<lambda>r. truthy (token r)) repos"
  show ?thesis
  proof (cases "snd (version_gate h (inp_version i) ?t)")
    case (Inl s)
    then have "s \<noteq> Extract_failed"
      by (auto simp: version_gate_def run_simps split: option.splits if_splits)
    with Inl Inr show ?thesis by (simp add: install_packages_def snd_andThen Let_def)
  next
    case gate_ok: (Inr u)
    with Inr show ?thesis
      by (simp add: install_packages_def run_simps Let_def
          split: if_splits sum.splits option.splits)
  qed
qed

lemma extractZip_cases:
  obtains (primary) "extractZip h f d = ([ExtractZip f d], Inr True)"
        and "tc_extractZip h f d = None"
  | (secondary) e1 where
        "extractZip h f d = ([ExtractZip f d, Exec ''pwsh'' (pwsh_args f d)], Inr True)"
        and "tc_extractZip h f d = Some e1" and "exec h ''pwsh'' (pwsh_args f d) = None"
  | (neither) e1 e2 where
        "extractZip h f d = ([ExtractZip f d, Exec ''pwsh'' (pwsh_args f d)], Inr False)"
        and "tc_extractZip h f d = Some e1" and "exec h ''pwsh'' (pwsh_args f d) = Some e2"
  by (auto simp: extractZip_def split: option.splits)

lemma install_opentap_after_download:
  assumes "downloadTool h (download_url h i) = Inr f"
  shows "\<exists>rest. fst (install_opentap h i) =
           [Info (''Downloading OpenTAP: '' @ js_join '','' (download_args h i)),
            DownloadTool (download_url h i),
            Info (''Unzipping OpenTAP: '' @ f)] @ fst (extractZip h f (destDir h)) @ rest"
  using assms
  by (cases h f "destDir h" rule: extractZip_cases)
     (simp_all add: install_opentap_def Let_def run_simps)

lemma install_opentap_start:
  "\<exists>rest. fst (install_opentap h i) =
           Info (''Downloading OpenTAP: '' @ js_join '','' (download_args h i)) #
           DownloadTool (download_url h i) # rest"
  by (cases "downloadTool h (download_url h i)")
     (simp_all add: install_opentap_def Let_def run_simps)

lemma install_opentap_Extract_failed:
  assumes "downloadTool h (download_url h i) = Inr f"
  shows "snd (install_opentap h i) = Inl Extract_failed \<longleftrightarrow>
           tc_extractZip h f (destDir h) \<noteq> None \<and>
           exec h ''pwsh'' (pwsh_args f (destDir h)) \<noteq> None"
  using assms
  by (cases h f "destDir h" rule: extractZip_cases)
     (auto simp add: install_opentap_def Let_def run_simps split: if_splits option.splits)

lemma install_opentap_done:
  assumes "snd (install_opentap h i) = Inr u"
  shows "\<exists>pre. fst (install_opentap h i) = pre @ [AddPath (destDir h)] \<and>
               AddPath (destDir h) \<notin> set pre"
  using assms
  by (auto simp: install_opentap_def Let_def run_simps extractZip_def
      split: sum.splits option.splits if_splits)

subsection \<open>The version pattern\<close>

lemma takeWhile_run:
  assumes "list_all is_digit a" and "\<not> starts_with_digit b"
  shows "takeWhile is_digit (a @ b) = a" and "dropWhile is_digit (a @ b) = b"
  using assms
  by (induction a) (auto simp: starts_with_digit_def split: list.splits)

lemma not_digit_dot: "\<not> is_digit CHR ''.''"
  by (simp add: is_digit_def)

lemma dot_not_starts: "\<not> starts_with_digit (CHR ''.'' # r)"
  by (simp add: starts_with_digit_def not_digit_dot)

lemma pattern_unfold:
  assumes "takeWhile is_digit v = ma" and "ma \<noteq> []"
    and "dropWhile is_digit v = CHR ''.'' # r2"
    and "takeWhile is_digit r2 = mi" and "mi \<noteq> []"
    and "dropWhile is_digit r2 = r3"
  shows "majorMinorPattern_exec v =
           Some \<lparr>major = ma, minor = mi,
                 patch = (case r3 of
                            [] \<Rightarrow> None
                          | d2 # r4 \<Rightarrow>
                              if d2 = CHR ''.'' \<and> takeWhile is_digit r4 \<noteq> []
                              then Some (takeWhile is_digit r4) else None)\<rparr>"
  using assms by (simp add: majorMinorPattern_exec_def Let_def split: list.splits)

lemma pattern_without_patch:
  assumes "digits ma" and "digits mi" and "\<not> starts_with_digit rest"
    and "\<forall>r. rest = CHR ''.'' # r \<longrightarrow> \<not> starts_with_digit r"
  shows "majorMinorPattern_exec (ma @ ''.'' @ mi @ rest)
           = Some \<lparr>major = ma, minor = mi, patch = None\<rparr>"
proof -
  have ma: "takeWhile is_digit (ma @ ''.'' @ mi @ rest) = ma"
    "dropWhile is_digit (ma @ ''.'' @ mi @ rest) = CHR ''.'' # mi @ rest"
    using assms(1) takeWhile_run [of ma "CHR ''.'' # mi @ rest"]
    by (simp_all add: digits_def dot_not_starts)
  have mi: "takeWhile is_digit (mi @ rest) = mi" "dropWhile is_digit (mi @ rest) = rest"
    using assms(2,3) takeWhile_run [of mi rest] by (simp_all add: digits_def)
  have "takeWhile is_digit r = []" if "rest = CHR ''.'' # r" for r
    using assms(4) that by (cases r) (auto simp: starts_with_digit_def)
  then have "(case rest of
                [] \<Rightarrow> None
              | d2 # r4 \<Rightarrow>
                  if d2 = CHR ''.'' \<and> takeWhile is_digit r4 \<noteq> []
                  then Some (takeWhile is_digit r4) else None) = None"
    by (cases rest) auto
  with pattern_unfold [OF ma(1) _ ma(2) mi(1) _ mi(2)] assms(1,2)
  show ?thesis by (simp add: digits_def)
qed

lemma pattern_with_patch:
  assumes "digits ma" and "digits mi" and "digits pa" and "\<not> starts_with_digit rest"
  shows "majorMinorPattern_exec (ma @ ''.'' @ mi @ ''.'' @ pa @ rest)
           = Some \<lparr>major = ma, minor = mi, patch = Some pa\<rparr>"
proof -
  have ma: "takeWhile is_digit (ma @ ''.'' @ mi @ ''.'' @ pa @ rest) = ma"
    "dropWhile is_digit (ma @ ''.'' @ mi @ ''.'' @ pa @ rest)
       = CHR ''.'' # mi @ ''.'' @ pa @ rest"
    using assms(1) takeWhile_run [of ma "CHR ''.'' # mi @ CHR ''.'' # pa @ rest"]
    by (simp_all add: digits_def dot_not_starts)
  have mi: "takeWhile is_digit (mi @ ''.'' @ pa @ rest) = mi"
    "dropWhile is_digit (mi @ ''.'' @ pa @ rest) = CHR ''.'' # pa @ rest"
    using assms(2) takeWhile_run [of mi "CHR ''.'' # pa @ rest"]
    by (simp_all add: digits_def dot_not_starts)
  have pa: "takeWhile is_digit (pa @ rest) = pa"
    using assms(3,4) takeWhile_run [of pa rest] by (simp_all add: digits_def)
  from pattern_unfold [OF ma(1) _ ma(2) mi(1) _ mi(2)] assms(1,2,3) pa
  show ?thesis by (simp add: digits_def)
qed

lemma digits_takeWhile: "takeWhile is_digit s \<noteq> [] \<Longrightarrow> digits (takeWhile is_digit s)"
  by (simp add: digits_def list_all_iff) (meson set_takeWhileD)

lemma pattern_groups:
  assumes "majorMinorPattern_exec v = Some g"
  shows "digits (major g) \<and> digits (minor g) \<and> (\<forall>p. patch g = Some p \<longrightarrow> digits p) \<and>
         (\<exists>rest. v = major g @ ''.'' @ minor g @
                    (case patch g of None \<Rightarrow> [] | Some p \<Rightarrow> ''.'' @ p) @ rest)"
proof -
  let ?ma = "takeWhile is_digit v" and ?r1 = "dropWhile is_digit v"
  from assms have ma_ne: "?ma \<noteq> []"
    by (auto simp: majorMinorPattern_exec_def Let_def split: if_splits)
  from assms ma_ne obtain r2 where r1: "?r1 = CHR ''.'' # r2"
    by (auto simp: majorMinorPattern_exec_def Let_def split: if_splits list.splits)
  let ?mi = "takeWhile is_digit r2" and ?r3 = "dropWhile is_digit r2"
  from assms ma_ne r1 have mi_ne: "?mi \<noteq> []"
    by (auto simp: majorMinorPattern_exec_def Let_def split: if_splits)
  have v: "v = ?ma @ CHR ''.'' # ?mi @ ?r3"
    using takeWhile_dropWhile_id [of is_digit v] takeWhile_dropWhile_id [of is_digit r2] r1
    by simp
  show ?thesis
  proof (cases "\<exists>r4. ?r3 = CHR ''.'' # r4 \<and> takeWhile is_digit r4 \<noteq> []")
    case True
    then obtain r4 where r3: "?r3 = CHR ''.'' # r4" and pa_ne: "takeWhile is_digit r4 \<noteq> []"
      by blast
    from assms ma_ne r1 mi_ne r3 pa_ne
    have g: "g = \<lparr>major = ?ma, minor = ?mi, patch = Some (takeWhile is_digit r4)\<rparr>"
      by (simp add: majorMinorPattern_exec_def Let_def)
    have "v = major g @ ''.'' @ minor g @
                (case patch g of None \<Rightarrow> [] | Some p \<Rightarrow> ''.'' @ p) @ dropWhile is_digit r4"
      using v r3 g by simp
    then have "\<exists>rest. v = major g @ ''.'' @ minor g @
                (case patch g of None \<Rightarrow> [] | Some p \<Rightarrow> ''.'' @ p) @ rest" ..
    moreover have "digits (major g)" "digits (minor g)" "\<forall>p. patch g = Some p \<longrightarrow> digits p"
      using g ma_ne mi_ne pa_ne by (simp_all add: digits_takeWhile)
    ultimately show ?thesis by blast
  next
    case False
    with assms ma_ne r1 mi_ne
    have g: "g = \<lparr>major = ?ma, minor = ?mi, patch = None\<rparr>"
      by (auto simp: majorMinorPattern_exec_def Let_def split: list.splits if_splits)
    have "v = major g @ ''.'' @ minor g @
                (case patch g of None \<Rightarrow> [] | Some p \<Rightarrow> ''.'' @ p) @ ?r3"
      using v g by simp
    then have "\<exists>rest. v = major g @ ''.'' @ minor g @
                (case patch g of None \<Rightarrow> [] | Some p \<Rightarrow> ''.'' @ p) @ rest" ..
    moreover have "digits (major g)" "digits (minor g)" "\<forall>p. patch g = Some p \<longrightarrow> digits p"
      using g ma_ne mi_ne by (simp_all add: digits_takeWhile)
    ultimately show ?thesis by blast
  qed
qed

lemma too_old_iff:
  assumes "majorMinorPattern_exec v = Some g"
  shows "too_old g \<longleftrightarrow>
           Number (minor g) < 21 \<or>
           (Number (minor g) = 21 \<and> (\<exists>p. patch g = Some p \<and> Number p < 1))"
  using pattern_groups [OF assms]
  by (cases "patch g") (auto simp: too_old_def digits_def)

lemma Number_literals:
  "Number ''20'' = 20" "Number ''21'' = 21" "Number ''22'' = 22"
  "Number ''0'' = 0" "Number ''1'' = 1"
  by (simp_all add: Number_def digit_value_def)

subsection \<open>The whole run\<close>

lemma main_body_rejects_iff:
  assumes "installed h i" and "inp_packages i \<noteq> []"
  shows "snd (main_body h i) = Inl Version_too_old \<longleftrightarrow>
           snd (install_packages h i) = Inl Version_too_old"
proof (cases "snd (install_packages h i)")
  case (Inl s)
  with assms main_body_packages_stop [of h i "()" s] show ?thesis
    by (simp add: installed_def)
next
  case (Inr u)
  with assms main_body_packages_ok [of h i "()" u] show ?thesis
    by (simp add: installed_def thrown_not_early)
qed

lemma main_body_too_old:
  assumes "snd (main_body h i) = Inl Version_too_old"
  shows "installed h i" and "inp_packages i \<noteq> []"
    and "snd (install_packages h i) = Inl Version_too_old"
    and "fst (main_body h i) = fst (install_opentap h i) @ fst (collect_repositories h i)"
proof -
  show inst: "installed h i"
  proof (cases "snd (install_opentap h i)")
    case (Inl s)
    with assms main_body_not_installed [of h i s] install_opentap_not_too_old [of h i]
    show ?thesis by simp
  next
    case (Inr u)
    then show ?thesis by (simp add: installed_def)
  qed
  show pk: "inp_packages i \<noteq> []"
  proof
    assume "inp_packages i = []"
    with inst assms main_body_no_packages [of h i "()"] show False
      by (simp add: installed_def thrown_not_early)
  qed
  from assms main_body_rejects_iff [OF inst pk]
  show rej: "snd (install_packages h i) = Inl Version_too_old" by simp
  from inst pk rej main_body_packages_stop [of h i "()" Version_too_old]
    install_packages_too_old [OF rej]
  show "fst (main_body h i) = fst (install_opentap h i) @ fst (collect_repositories h i)"
    by (simp add: installed_def)
qed

lemma main_last_SetFailed:
  assumes "snd (main_body h i) = Inl s"
  shows "main h i = fst (main_body h i) @ [SetFailed (failure_message s)]"
  using assms by (simp add: main_trace)

lemma main_body_event:
  assumes "e \<in> set (fst (main_body h i))"
  shows "e \<in> set (fst (install_opentap h i)) \<or>
         (inp_packages i \<noteq> [] \<and> e \<in> set (fst (install_packages h i))) \<or>
         e = Exec ''tap'' list_args"
proof (cases "snd (install_opentap h i)")
  case (Inl s)
  with assms main_body_not_installed [of h i s] show ?thesis by simp
next
  case ok: (Inr u)
  show ?thesis
  proof (cases "inp_packages i = []")
    case True
    with assms ok main_body_no_packages [of h i u] show ?thesis by auto
  next
    case False
    show ?thesis
    proof (cases "snd (install_packages h i)")
      case (Inl s)
      with assms ok False main_body_packages_stop [of h i u s] show ?thesis by auto
    next
      case (Inr u')
      with assms ok False main_body_packages_ok [of h i u u'] show ?thesis by auto
    qed
  qed
qed

lemma main_body_starts_with_install:
  "\<exists>rest. fst (main_body h i) = fst (install_opentap h i) @ rest"
proof (cases "snd (install_opentap h i)")
  case (Inl s)
  with main_body_not_installed [of h i s] show ?thesis by simp
next
  case ok: (Inr u)
  show ?thesis
  proof (cases "inp_packages i = []")
    case True
    with ok main_body_no_packages [of h i u] show ?thesis by simp
  next
    case False
    show ?thesis
    proof (cases "snd (install_packages h i)")
      case (Inl s)
      with ok False main_body_packages_stop [of h i u s] show ?thesis by simp
    next
      case (Inr u')
      with ok False main_body_packages_ok [of h i u u'] show ?thesis by simp
    qed
  qed
qed

lemma main_starts_with_install:
  "\<exists>rest. main h i = fst (install_opentap h i) @ rest"
  using main_body_starts_with_install [of h i] by (auto simp: main_trace)

lemma main_event:
  assumes "e \<in> set (main h i)"
  shows "e \<in> set (fst (install_opentap h i)) \<or>
         (inp_packages i \<noteq> [] \<and> e \<in> set (fst (install_packages h i))) \<or>
         e = Exec ''tap'' list_args \<or> (\<exists>m. e = SetFailed m)"
  using assms main_body_event [of e h i]
  by (auto simp: main_trace split: sum.splits)

lemma main_body_Extract_failed:
  "snd (main_body h i) = Inl Extract_failed \<longleftrightarrow> snd (install_opentap h i) = Inl Extract_failed"
proof (cases "snd (install_opentap h i)")
  case (Inl s)
  with main_body_not_installed [of h i s] show ?thesis by simp
next
  case ok: (Inr u)
  show ?thesis
  proof (cases "inp_packages i = []")
    case True
    with ok main_body_no_packages [of h i u] show ?thesis by (simp add: thrown_not_early)
  next
    case False
    show ?thesis
    proof (cases "snd (install_packages h i)")
      case (Inl s)
      with ok False main_body_packages_stop [of h i u s]
        snd_install_packages_not_extract_failed [of h i]
      show ?thesis by auto
    next
      case (Inr u')
      with ok False main_body_packages_ok [of h i u u'] show ?thesis
        by (simp add: thrown_not_early)
    qed
  qed
qed

lemma download_args_eq:
  "download_args h i =
     (if inp_version i \<noteq> [] then [''version='' @ inp_version i] else []) @
     [''architecture='' @
        (if inp_architecture i \<noteq> [] then inp_architecture i
         else if os_arch h = ''x32'' then ''x86'' else ''x64''),
      ''os='' @
        (if inp_os i \<noteq> [] then inp_os i else tag (detect_platform (os_platform h)))]"
  by (simp add: download_args_def Let_def)

lemma download_url_eq:
  "download_url h i =
     ''https://packages.opentap.io/3.0/DownloadPackage/OpenTAP?'' @
     (if inp_version i \<noteq> [] then ''version='' @ inp_version i @ ''&'' else []) @
     ''architecture='' @
        (if inp_architecture i \<noteq> [] then inp_architecture i
         else if os_arch h = ''x32'' then ''x86'' else ''x64'') @
     ''&os='' @
        (if inp_os i \<noteq> [] then inp_os i else tag (detect_platform (os_platform h)))"
  by (simp add: download_url_def download_args_eq)

lemma main_start:
  "\<exists>rest. main h i =
     Info (''Downloading OpenTAP: '' @ js_join '','' (download_args h i)) #
     DownloadTool (download_url h i) # rest"
  using install_opentap_start [of h i] main_starts_with_install [of h i] by auto

lemma extraction_after_download:
  assumes "downloadTool h (download_url h i) = Inr f"
  shows "take 4 (main h i) =
           [Info (''Downloading OpenTAP: '' @ js_join '','' (download_args h i)),
            DownloadTool (download_url h i),
            Info (''Unzipping OpenTAP: '' @ f),
            ExtractZip f (destDir h)] \<and>
         (Exec ''pwsh'' (pwsh_args f (destDir h)) \<in> set (main h i) \<longleftrightarrow>
            tc_extractZip h f (destDir h) \<noteq> None) \<and>
         (tc_extractZip h f (destDir h) \<noteq> None \<longrightarrow>
            main h i ! 4 = Exec ''pwsh'' (pwsh_args f (destDir h))) \<and>
         (snd (main_body h i) = Inl Extract_failed \<longleftrightarrow>
            tc_extractZip h f (destDir h) \<noteq> None \<and>
            exec h ''pwsh'' (pwsh_args f (destDir h)) \<noteq> None) \<and>
         (snd (main_body h i) = Inl Extract_failed \<longrightarrow>
            main h i =
              [Info (''Downloading OpenTAP: '' @ js_join '','' (download_args h i)),
               DownloadTool (download_url h i),
               Info (''Unzipping OpenTAP: '' @ f),
               ExtractZip f (destDir h),
               Exec ''pwsh'' (pwsh_args f (destDir h)),
               SetFailed ''Unable to extract zip archive.'']) \<and>
         failure_message Extract_failed \<noteq> failure_message Version_too_old"
proof -
  let ?pwsh = "Exec ''pwsh'' (pwsh_args f (destDir h))"
  from install_opentap_after_download [OF assms] main_starts_with_install [of h i]
  obtain rest where trace: "main h i =
      [Info (''Downloading OpenTAP: '' @ js_join '','' (download_args h i)),
       DownloadTool (download_url h i),
       Info (''Unzipping OpenTAP: '' @ f)] @ fst (extractZip h f (destDir h)) @ rest"
    by auto
  have first: "take 4 (main h i) =
           [Info (''Downloading OpenTAP: '' @ js_join '','' (download_args h i)),
            DownloadTool (download_url h i),
            Info (''Unzipping OpenTAP: '' @ f),
            ExtractZip f (destDir h)]"
    unfolding trace
    by (cases h f "destDir h" rule: extractZip_cases) simp_all
  have fifth: "main h i ! 4 = ?pwsh" if "tc_extractZip h f (destDir h) \<noteq> None"
    using that unfolding trace
    by (cases h f "destDir h" rule: extractZip_cases) simp_all
  have there: "?pwsh \<in> set (main h i)" if "tc_extractZip h f (destDir h) \<noteq> None"
    using that unfolding trace
    by (cases h f "destDir h" rule: extractZip_cases) simp_all
  have only: "tc_extractZip h f (destDir h) \<noteq> None" if "?pwsh \<in> set (main h i)"
  proof -
    from main_event [OF that] have "?pwsh \<in> set (fst (install_opentap h i))"
      using install_packages_event [of ?pwsh h i] by (auto simp: list_args_def)
    from install_opentap_event [OF this] assms show ?thesis by auto
  qed
  have stops: "snd (main_body h i) = Inl Extract_failed \<longleftrightarrow>
            tc_extractZip h f (destDir h) \<noteq> None \<and>
            exec h ''pwsh'' (pwsh_args f (destDir h)) \<noteq> None"
    by (simp add: main_body_Extract_failed install_opentap_Extract_failed [OF assms])
  have final: "main h i =
              [Info (''Downloading OpenTAP: '' @ js_join '','' (download_args h i)),
               DownloadTool (download_url h i),
               Info (''Unzipping OpenTAP: '' @ f),
               ExtractZip f (destDir h),
               ?pwsh,
               SetFailed ''Unable to extract zip archive.'']"
    if "snd (main_body h i) = Inl Extract_failed"
  proof -
    from that stops obtain e1 e2 where "tc_extractZip h f (destDir h) = Some e1"
      and "exec h ''pwsh'' (pwsh_args f (destDir h)) = Some e2" by auto
    from install_opentap_extract_fails [OF assms this]
      main_body_not_installed [of h i Extract_failed]
    show ?thesis by (simp add: main_def)
  qed
  have distinct: "failure_message Extract_failed \<noteq> failure_message Version_too_old"
    by simp
  from first there only fifth stops final distinct show ?thesis by blast
qed

lemma truthy_iff: "truthy t \<longleftrightarrow> t \<noteq> None \<and> t \<noteq> Some []"
  by (cases t) simp_all

section \<open>The claims\<close>

text \<open>
  C1. In a run that reaches the check of line 164 (OpenTAP installed, a \<open>packages\<close> input,
  the repository descriptors built) with a version configured and a token on some
  repository, the run stops with the minimum-version failure exactly when the version
  matches the pattern with \<open>minor < 21\<close>, or \<open>minor = 21\<close> and a patch group that is
  present and below 1. The failure message is the one that names the minimum version.
  The pattern reads \<open>major.minor\<close> and \<open>major.minor.patch\<close> whatever text follows the
  digits, its groups are runs of digits of the version, and a version it does not match
  stops the run with the engine's error instead. Minor 20 is rejected, 21 without patch
  accepted, 21.0 rejected, 21.1 accepted, 22 accepted with or without patch.
\<close>

theorem version_gate_rejects_iff:
  assumes "installed h i" and "inp_packages i \<noteq> []"
    and "snd (collect_repositories h i) = Inr repositories"
    and "inp_version i \<noteq> []"
    and "list_ex (\<lambda>r. truthy (token r)) repositories"
  shows "(snd (main_body h i) = Inl Version_too_old \<longleftrightarrow>
            (\<exists>g. majorMinorPattern_exec (inp_version i) = Some g \<and>
                 (Number (minor g) < 21 \<or>
                  (Number (minor g) = 21 \<and> (\<exists>p. patch g = Some p \<and> Number p < 1))))) \<and>
         (snd (main_body h i) = Inl Version_too_old \<longrightarrow>
            last (main h i) =
              SetFailed ''repository-token support requires OpenTAP 9.22.0 or greater.'') \<and>
         (majorMinorPattern_exec (inp_version i) = None \<longrightarrow>
            snd (main_body h i) = Inl (Uncaught (null_groups_message h))) \<and>
         (\<forall>g. majorMinorPattern_exec v = Some g \<longrightarrow>
            digits (major g) \<and> digits (minor g) \<and> (\<forall>p. patch g = Some p \<longrightarrow> digits p) \<and>
            (\<exists>rest. v = major g @ ''.'' @ minor g @
                       (case patch g of None \<Rightarrow> [] | Some p \<Rightarrow> ''.'' @ p) @ rest)) \<and>
         (digits ma \<and> digits mi \<and> \<not> starts_with_digit rest \<and>
          (\<forall>r. rest = CHR ''.'' # r \<longrightarrow> \<not> starts_with_digit r) \<longrightarrow>
            majorMinorPattern_exec (ma @ ''.'' @ mi @ rest)
              = Some \<lparr>major = ma, minor = mi, patch = None\<rparr>) \<and>
         (digits ma \<and> digits mi \<and> digits pa \<and> \<not> starts_with_digit rest \<longrightarrow>
            majorMinorPattern_exec (ma @ ''.'' @ mi @ ''.'' @ pa @ rest)
              = Some \<lparr>major = ma, minor = mi, patch = Some pa\<rparr>) \<and>
         snd (version_gate h ''9.20'' True) = Inl Version_too_old \<and>
         snd (version_gate h ''9.20.5'' True) = Inl Version_too_old \<and>
         snd (version_gate h ''9.21'' True) = Inr () \<and>
         snd (version_gate h ''9.21.0'' True) = Inl Version_too_old \<and>
         snd (version_gate h ''9.21.1'' True) = Inr () \<and>
         snd (version_gate h ''9.22'' True) = Inr () \<and>
         snd (version_gate h ''9.22.0'' True) = Inr ()"
proof -
  have "snd (main_body h i) = Inl Version_too_old \<longleftrightarrow>
          (\<exists>g. majorMinorPattern_exec (inp_version i) = Some g \<and> too_old g)"
    using assms main_body_rejects_iff [OF assms(1,2)]
    by (simp add: snd_install_packages_too_old snd_version_gate)
  then have rule: "snd (main_body h i) = Inl Version_too_old \<longleftrightarrow>
            (\<exists>g. majorMinorPattern_exec (inp_version i) = Some g \<and>
                 (Number (minor g) < 21 \<or>
                  (Number (minor g) = 21 \<and> (\<exists>p. patch g = Some p \<and> Number p < 1))))"
    using too_old_iff [of "inp_version i"] by blast
  have message: "last (main h i) =
      SetFailed ''repository-token support requires OpenTAP 9.22.0 or greater.''"
    if "snd (main_body h i) = Inl Version_too_old"
    using main_last_SetFailed [OF that] by simp
  have gate:
    "snd (version_gate h ''9.20'' True) = Inl Version_too_old"
    "snd (version_gate h ''9.20.5'' True) = Inl Version_too_old"
    "snd (version_gate h ''9.21'' True) = Inr ()"
    "snd (version_gate h ''9.21.0'' True) = Inl Version_too_old"
    "snd (version_gate h ''9.21.1'' True) = Inr ()"
    "snd (version_gate h ''9.22'' True) = Inr ()"
    "snd (version_gate h ''9.22.0'' True) = Inr ()"
    by (simp_all add: version_gate_def majorMinorPattern_exec_def is_digit_def too_old_def
        Number_def digit_value_def stop_with_def done_ok_def)
  have malformed: "snd (main_body h i) = Inl (Uncaught (null_groups_message h))"
    if "majorMinorPattern_exec (inp_version i) = None"
  proof -
    from that assms(4,5)
    have "snd (version_gate h (inp_version i) (list_ex (\<lambda>r. truthy (token r)) repositories))
            = Inl (Uncaught (null_groups_message h))"
      by (simp add: version_gate_def stop_with_def)
    with assms(3) have "snd (install_packages h i) = Inl (Uncaught (null_groups_message h))"
      by (simp add: install_packages_def snd_andThen Let_def)
    with main_body_packages_stop [of h i "()"] assms(1,2) show ?thesis
      by (simp add: installed_def)
  qed
  from rule message malformed pattern_groups [of v]
    pattern_without_patch [of ma mi rest] pattern_with_patch [of ma mi pa rest] gate
  show ?thesis by blast
qed

theorem version_gate_rejects_witness:
  "installed runner old_inputs \<and> inp_packages old_inputs \<noteq> [] \<and>
   snd (collect_repositories runner old_inputs) = Inr [default_repository old_inputs] \<and>
   inp_version old_inputs \<noteq> [] \<and>
   list_ex (\<lambda>r. truthy (token r)) [default_repository old_inputs] \<and>
   digits ''9'' \<and> digits ''20'' \<and> digits ''3'' \<and> \<not> starts_with_digit ''-beta'' \<and>
   snd (main_body runner old_inputs) = Inl Version_too_old \<and>
   last (main runner old_inputs) =
     SetFailed ''repository-token support requires OpenTAP 9.22.0 or greater.'' \<and>
   majorMinorPattern_exec (inp_version latest_inputs) = None \<and>
   snd (main_body runner latest_inputs) = Inl (Uncaught (null_groups_message runner)) \<and>
   majorMinorPattern_exec ''9.20-beta'' = Some \<lparr>major = ''9'', minor = ''20'', patch = None\<rparr> \<and>
   majorMinorPattern_exec ''9.20.3-beta''
     = Some \<lparr>major = ''9'', minor = ''20'', patch = Some ''3''\<rparr>"
proof -
  have h1: "installed runner old_inputs"
    by (simp add: installed_def install_opentap_def Let_def run_simps extractZip_def
        runner_def old_inputs_def demo_inputs_def)
  have h2: "inp_packages old_inputs \<noteq> []"
    by (simp add: old_inputs_def demo_inputs_def)
  have h3: "snd (collect_repositories runner old_inputs) = Inr [default_repository old_inputs]"
    by (simp add: collect_repositories_def Let_def run_simps old_inputs_def demo_inputs_def)
  have h4: "inp_version old_inputs \<noteq> []"
    by (simp add: old_inputs_def demo_inputs_def)
  have h5: "list_ex (\<lambda>r. truthy (token r)) [default_repository old_inputs]"
    by (simp add: default_repository_def old_inputs_def demo_inputs_def)
  have d: "digits ''9''" "digits ''20''" "digits ''3''" "\<not> starts_with_digit ''-beta''"
    "\<forall>r. ''-beta'' = CHR ''.'' # r \<longrightarrow> \<not> starts_with_digit r"
    by (simp_all add: digits_def starts_with_digit_def is_digit_def)
  have old: "\<exists>g. majorMinorPattern_exec (inp_version old_inputs) = Some g \<and>
                 (Number (minor g) < 21 \<or>
                  (Number (minor g) = 21 \<and> (\<exists>p. patch g = Some p \<and> Number p < 1)))"
    by (simp add: old_inputs_def demo_inputs_def majorMinorPattern_exec_def is_digit_def
        Number_def digit_value_def)
  have l1: "installed runner latest_inputs"
    by (simp add: installed_def install_opentap_def Let_def run_simps extractZip_def
        runner_def latest_inputs_def demo_inputs_def)
  have l2: "inp_packages latest_inputs \<noteq> []" and l4: "inp_version latest_inputs \<noteq> []"
    by (simp_all add: latest_inputs_def demo_inputs_def)
  have l3: "snd (collect_repositories runner latest_inputs)
              = Inr [default_repository latest_inputs]"
    by (simp add: collect_repositories_def Let_def run_simps latest_inputs_def demo_inputs_def)
  have l5: "list_ex (\<lambda>r. truthy (token r)) [default_repository latest_inputs]"
    by (simp add: default_repository_def latest_inputs_def demo_inputs_def)
  have malformed: "majorMinorPattern_exec (inp_version latest_inputs) = None"
    by (simp add: latest_inputs_def demo_inputs_def majorMinorPattern_exec_def is_digit_def)
  from version_gate_rejects_iff [OF h1 h2 h3 h4 h5, where ma = "''9''" and mi = "''20''"
      and pa = "''3''" and rest = "''-beta''"]
    version_gate_rejects_iff [OF l1 l2 l3 l4 l5] old d h1 h2 h3 h4 h5 malformed
  show ?thesis by simp
qed

text \<open>
  C9. When the compatibility check rejects, the trace is the installation, then at most the
  writing of \<open>Package Manager.xml\<close>, then the failure with the message that names the
  minimum version: \<open>AuthenticationSettings.xml\<close> and \<open>image.json\<close> are not written and
  \<open>tap\<close> is not run, neither to install nor to list.
\<close>

theorem version_gate_rejection_stops:
  assumes "snd (main_body h i) = Inl Version_too_old"
  shows "main h i = fst (install_opentap h i) @ fst (collect_repositories h i) @
           [SetFailed ''repository-token support requires OpenTAP 9.22.0 or greater.''] \<and>
         (\<forall>c. WriteFileSync (settingsDir h @ ''AuthenticationSettings.xml'') c \<notin> set (main h i)) \<and>
         (\<forall>c. WriteFileSync ''image.json'' c \<notin> set (main h i)) \<and>
         (\<forall>as. Exec ''tap'' as \<notin> set (main h i))"
proof -
  have trace: "main h i = fst (install_opentap h i) @ fst (collect_repositories h i) @
           [SetFailed ''repository-token support requires OpenTAP 9.22.0 or greater.'']"
    using main_last_SetFailed [OF assms] main_body_too_old(4) [OF assms] by simp
  have no_auth: "WriteFileSync (settingsDir h @ ''AuthenticationSettings.xml'') c \<notin> set (main h i)" for c
    unfolding trace
    using install_opentap_event [of "WriteFileSync (settingsDir h @ ''AuthenticationSettings.xml'') c" h i]
      collect_repositories_event [of "WriteFileSync (settingsDir h @ ''AuthenticationSettings.xml'') c" h i]
    by auto
  have len: "settingsDir h @ ''Package Manager.xml'' \<noteq> ''image.json''"
  proof
    assume "settingsDir h @ ''Package Manager.xml'' = ''image.json''"
    then have "length (settingsDir h @ ''Package Manager.xml'') = length ''image.json''"
      by (rule arg_cong)
    then show False by simp
  qed
  have no_image: "WriteFileSync ''image.json'' c \<notin> set (main h i)" for c
    unfolding trace
    using install_opentap_event [of "WriteFileSync ''image.json'' c" h i]
      collect_repositories_event [of "WriteFileSync ''image.json'' c" h i] len
    by auto
  have no_tap: "Exec ''tap'' as \<notin> set (main h i)" for as
    unfolding trace
    using install_opentap_event [of "Exec ''tap'' as" h i]
      collect_repositories_event [of "Exec ''tap'' as" h i]
    by auto
  from trace no_auth no_image no_tap show ?thesis by blast
qed

theorem version_gate_rejection_stops_witness:
  "snd (main_body runner old_inputs) = Inl Version_too_old \<and>
   main runner old_inputs =
     fst (install_opentap runner old_inputs) @ fst (collect_repositories runner old_inputs) @
       [SetFailed ''repository-token support requires OpenTAP 9.22.0 or greater.''] \<and>
   (\<forall>c. WriteFileSync (settingsDir runner @ ''AuthenticationSettings.xml'') c
          \<notin> set (main runner old_inputs)) \<and>
   (\<forall>c. WriteFileSync ''image.json'' c \<notin> set (main runner old_inputs)) \<and>
   (\<forall>as. Exec ''tap'' as \<notin> set (main runner old_inputs))"
proof -
  have rejected: "snd (main_body runner old_inputs) = Inl Version_too_old"
    by (simp add: main_body_def install_opentap_def install_packages_def
        collect_repositories_def version_gate_def Let_def run_simps extractZip_def
        majorMinorPattern_exec_def is_digit_def too_old_def Number_def digit_value_def
        default_repository_def runner_def old_inputs_def demo_inputs_def)
  from version_gate_rejection_stops [OF rejected] rejected show ?thesis by blast
qed

text \<open>
  C2. For any sequence of repository descriptors, the document \<open>GetAuthenticationSettings\<close>
  returns is the XML declaration and the opening \<open>AuthenticationSettings\<close> and \<open>Tokens\<close>
  tags, then, for each repository whose token is present and not empty and in the order
  of the input, one \<open>TokenInfo\<close> element whose \<open>AccessToken\<close> is that repository's token
  and whose \<open>Domain\<close> is its domain, then the two closing tags; a repository without a
  token adds nothing. With no such repository (the empty sequence included) the document
  is the opening and closing tags only. The repositories \<open>a.com\<close> with token \<open>t1\<close> and
  \<open>b.com\<close> with none give one element, for \<open>a.com\<close> and \<open>t1\<close>. When, besides, tokens and
  domains hold no \<open><\<close>, the opening tag \<open><TokenInfo>\<close> occurs once per repository with a
  token.
\<close>

theorem GetAuthenticationSettings_entries:
  \<open>GetAuthenticationSettings repositories =
     ''<?xml version="1.0" encoding="utf-8"?>\<newline><AuthenticationSettings type="OpenTap.Authentication.AuthenticationSettings">\<newline>  <Tokens type="System.Collections.Generic.List`1[[OpenTap.Authentication.TokenInfo]]">'' @
     concat
       (map (\<lambda>r. ''\<newline>    <TokenInfo>\<newline>      <AccessToken>'' @ the (token r) @
                  ''</AccessToken>\<newline>      <Domain>'' @ domain r @
                  ''</Domain>\<newline>    </TokenInfo>\<newline>'')
          (filter (\<lambda>r. token r \<noteq> None \<and> token r \<noteq> Some []) repositories)) @
     ''  </Tokens>\<newline></AuthenticationSettings>''
   \<and> ((\<forall>r \<in> set repositories. token r = None \<or> token r = Some []) \<longrightarrow>
        GetAuthenticationSettings repositories =
          ''<?xml version="1.0" encoding="utf-8"?>\<newline><AuthenticationSettings type="OpenTap.Authentication.AuthenticationSettings">\<newline>  <Tokens type="System.Collections.Generic.List`1[[OpenTap.Authentication.TokenInfo]]">  </Tokens>\<newline></AuthenticationSettings>'')
   \<and> ((\<forall>r \<in> set repositories.
          token r \<noteq> None \<and> token r \<noteq> Some [] \<longrightarrow>
            CHR ''<'' \<notin> set (the (token r)) \<and> CHR ''<'' \<notin> set (domain r)) \<longrightarrow>
        occurrences ''<TokenInfo>'' (GetAuthenticationSettings repositories)
          = length (filter (\<lambda>r. token r \<noteq> None \<and> token r \<noteq> Some []) repositories))
   \<and> GetAuthenticationSettings [] =
        ''<?xml version="1.0" encoding="utf-8"?>\<newline><AuthenticationSettings type="OpenTap.Authentication.AuthenticationSettings">\<newline>  <Tokens type="System.Collections.Generic.List`1[[OpenTap.Authentication.TokenInfo]]">  </Tokens>\<newline></AuthenticationSettings>''
   \<and> GetAuthenticationSettings
         [\<lparr>url = u1, domain = ''a.com'', token = Some ''t1''\<rparr>,
          \<lparr>url = u2, domain = ''b.com'', token = None\<rparr>]
       = ''<?xml version="1.0" encoding="utf-8"?>\<newline><AuthenticationSettings type="OpenTap.Authentication.AuthenticationSettings">\<newline>  <Tokens type="System.Collections.Generic.List`1[[OpenTap.Authentication.TokenInfo]]">\<newline>    <TokenInfo>\<newline>      <AccessToken>t1</AccessToken>\<newline>      <Domain>a.com</Domain>\<newline>    </TokenInfo>\<newline>  </Tokens>\<newline></AuthenticationSettings>''\<close>
proof -
  let ?has = "\<lambda>r. token r \<noteq> None \<and> token r \<noteq> Some []"
  have doc: "GetAuthenticationSettings rs =
     AUTH_HEADER @
     concat (map (\<lambda>r. TokenInfo (the (token r)) (domain r)) (filter ?has rs)) @
     AUTH_FOOTER" for rs
    by (simp add: GetAuthenticationSettings_def foldl_auth_step truthy_iff)
  have whole: \<open>GetAuthenticationSettings repositories =
     ''<?xml version="1.0" encoding="utf-8"?>\<newline><AuthenticationSettings type="OpenTap.Authentication.AuthenticationSettings">\<newline>  <Tokens type="System.Collections.Generic.List`1[[OpenTap.Authentication.TokenInfo]]">'' @
     concat
       (map (\<lambda>r. ''\<newline>    <TokenInfo>\<newline>      <AccessToken>'' @ the (token r) @
                  ''</AccessToken>\<newline>      <Domain>'' @ domain r @
                  ''</Domain>\<newline>    </TokenInfo>\<newline>'')
          (filter (\<lambda>r. token r \<noteq> None \<and> token r \<noteq> Some []) repositories)) @
     ''  </Tokens>\<newline></AuthenticationSettings>''\<close>
    by (simp add: doc TokenInfo_def AUTH_HEADER_def AUTH_FOOTER_def)
  have none: \<open>(\<forall>r \<in> set repositories. token r = None \<or> token r = Some []) \<longrightarrow>
        GetAuthenticationSettings repositories =
          ''<?xml version="1.0" encoding="utf-8"?>\<newline><AuthenticationSettings type="OpenTap.Authentication.AuthenticationSettings">\<newline>  <Tokens type="System.Collections.Generic.List`1[[OpenTap.Authentication.TokenInfo]]">  </Tokens>\<newline></AuthenticationSettings>''\<close>
  proof
    assume "\<forall>r \<in> set repositories. token r = None \<or> token r = Some []"
    then have "filter ?has repositories = []"
      by (simp add: filter_empty_conv)
    then show \<open>GetAuthenticationSettings repositories =
          ''<?xml version="1.0" encoding="utf-8"?>\<newline><AuthenticationSettings type="OpenTap.Authentication.AuthenticationSettings">\<newline>  <Tokens type="System.Collections.Generic.List`1[[OpenTap.Authentication.TokenInfo]]">  </Tokens>\<newline></AuthenticationSettings>''\<close>
      by (simp add: doc AUTH_HEADER_def AUTH_FOOTER_def)
  qed
  have count: \<open>(\<forall>r \<in> set repositories.
          token r \<noteq> None \<and> token r \<noteq> Some [] \<longrightarrow>
            CHR ''<'' \<notin> set (the (token r)) \<and> CHR ''<'' \<notin> set (domain r)) \<longrightarrow>
        occurrences ''<TokenInfo>'' (GetAuthenticationSettings repositories)
          = length (filter (\<lambda>r. token r \<noteq> None \<and> token r \<noteq> Some []) repositories)\<close>
  proof
    assume "\<forall>r \<in> set repositories.
          token r \<noteq> None \<and> token r \<noteq> Some [] \<longrightarrow>
            CHR ''<'' \<notin> set (the (token r)) \<and> CHR ''<'' \<notin> set (domain r)"
    then have "\<forall>r \<in> set (filter ?has repositories).
        CHR ''<'' \<notin> set (the (token r)) \<and> CHR ''<'' \<notin> set (domain r)"
      by simp
    from occurrences_entries [OF this, of AUTH_FOOTER]
    show "occurrences ''<TokenInfo>'' (GetAuthenticationSettings repositories)
          = length (filter ?has repositories)"
      by (simp only: doc occurrences_AUTH_HEADER occurrences_AUTH_FOOTER add_0_right)
  qed
  have empty: \<open>GetAuthenticationSettings [] =
        ''<?xml version="1.0" encoding="utf-8"?>\<newline><AuthenticationSettings type="OpenTap.Authentication.AuthenticationSettings">\<newline>  <Tokens type="System.Collections.Generic.List`1[[OpenTap.Authentication.TokenInfo]]">  </Tokens>\<newline></AuthenticationSettings>''\<close>
    by (simp add: doc AUTH_HEADER_def AUTH_FOOTER_def)
  have two: \<open>GetAuthenticationSettings
         [\<lparr>url = u1, domain = ''a.com'', token = Some ''t1''\<rparr>,
          \<lparr>url = u2, domain = ''b.com'', token = None\<rparr>]
       = ''<?xml version="1.0" encoding="utf-8"?>\<newline><AuthenticationSettings type="OpenTap.Authentication.AuthenticationSettings">\<newline>  <Tokens type="System.Collections.Generic.List`1[[OpenTap.Authentication.TokenInfo]]">\<newline>    <TokenInfo>\<newline>      <AccessToken>t1</AccessToken>\<newline>      <Domain>a.com</Domain>\<newline>    </TokenInfo>\<newline>  </Tokens>\<newline></AuthenticationSettings>''\<close>
    by (simp add: doc TokenInfo_def AUTH_HEADER_def AUTH_FOOTER_def)
  show ?thesis
    by (rule conjI [OF whole conjI [OF none conjI [OF count conjI [OF empty two]]]])
qed

theorem GetAuthenticationSettings_entries_witness:
  \<open>GetAuthenticationSettings
     [\<lparr>url = ''https://a.com'', domain = ''a.com'', token = Some ''t1''\<rparr>,
      \<lparr>url = ''https://b.com'', domain = ''b.com'', token = None\<rparr>,
      \<lparr>url = ''https://c.com'', domain = ''c.com'', token = Some ''t3''\<rparr>]
     = ''<?xml version="1.0" encoding="utf-8"?>\<newline><AuthenticationSettings type="OpenTap.Authentication.AuthenticationSettings">\<newline>  <Tokens type="System.Collections.Generic.List`1[[OpenTap.Authentication.TokenInfo]]">\<newline>    <TokenInfo>\<newline>      <AccessToken>t1</AccessToken>\<newline>      <Domain>a.com</Domain>\<newline>    </TokenInfo>\<newline>\<newline>    <TokenInfo>\<newline>      <AccessToken>t3</AccessToken>\<newline>      <Domain>c.com</Domain>\<newline>    </TokenInfo>\<newline>  </Tokens>\<newline></AuthenticationSettings>'' \<and>
   occurrences ''<TokenInfo>''
     (GetAuthenticationSettings
        [\<lparr>url = ''https://a.com'', domain = ''a.com'', token = Some ''t1''\<rparr>,
         \<lparr>url = ''https://b.com'', domain = ''b.com'', token = None\<rparr>,
         \<lparr>url = ''https://c.com'', domain = ''c.com'', token = Some ''t3''\<rparr>]) = 2 \<and>
   GetAuthenticationSettings
     [\<lparr>url = ''https://b.com'', domain = ''b.com'', token = None\<rparr>,
      \<lparr>url = ''https://c.com'', domain = ''c.com'', token = Some []\<rparr>]
     = ''<?xml version="1.0" encoding="utf-8"?>\<newline><AuthenticationSettings type="OpenTap.Authentication.AuthenticationSettings">\<newline>  <Tokens type="System.Collections.Generic.List`1[[OpenTap.Authentication.TokenInfo]]">  </Tokens>\<newline></AuthenticationSettings>''\<close>
  using
    GetAuthenticationSettings_entries
      [where repositories =
         "[\<lparr>url = ''https://a.com'', domain = ''a.com'', token = Some ''t1''\<rparr>,
           \<lparr>url = ''https://b.com'', domain = ''b.com'', token = None\<rparr>,
           \<lparr>url = ''https://c.com'', domain = ''c.com'', token = Some ''t3''\<rparr>]"]
    GetAuthenticationSettings_entries
      [where repositories =
         "[\<lparr>url = ''https://b.com'', domain = ''b.com'', token = None\<rparr>,
           \<lparr>url = ''https://c.com'', domain = ''c.com'', token = Some []\<rparr>]"]
  by simp

text \<open>
  C3, as the code has it. The \<open>packages\<close> input is split at its commas, and each piece
  gives one package reference, in order. The name is the text before the first colon.
  The version is the text between the first colon and the next one, or the end of the
  piece: for a piece \<open>name:version\<close> with one colon it is all the text after the colon,
  and it is absent when the piece has no colon. \<open>A:1.2.3,B\<close> gives \<open>A\<close> at \<open>1.2.3\<close> and \<open>B\<close>
  with no version.
\<close>

theorem parse_packages_specs:
  "parse_packages packages =
     map (\<lambda>spec.
            \<lparr>Name = Some (takeWhile (\<lambda>c. c \<noteq> CHR '':'') spec),
             Version = (case dropWhile (\<lambda>c. c \<noteq> CHR '':'') spec of
                          [] \<Rightarrow> None
                        | _ # rest \<Rightarrow> Some (takeWhile (\<lambda>c. c \<noteq> CHR '':'') rest))\<rparr>)
         (js_split CHR '','' packages)
   \<and> js_join '','' (js_split CHR '','' packages) = packages
   \<and> (\<forall>spec \<in> set (js_split CHR '','' packages). CHR '','' \<notin> set spec)
   \<and> (CHR '':'' \<notin> set name \<and> CHR '':'' \<notin> set ver \<longrightarrow>
        package_of_spec (name @ '':'' @ ver) = \<lparr>Name = Some name, Version = Some ver\<rparr>)
   \<and> (CHR '':'' \<notin> set name \<longrightarrow>
        package_of_spec name = \<lparr>Name = Some name, Version = None\<rparr>)
   \<and> parse_packages ''A:1.2.3,B'' =
        [\<lparr>Name = Some ''A'', Version = Some ''1.2.3''\<rparr>, \<lparr>Name = Some ''B'', Version = None\<rparr>]"
proof -
  have no_colon: "takeWhile (\<lambda>c. c \<noteq> CHR '':'') s = s \<and> dropWhile (\<lambda>c. c \<noteq> CHR '':'') s = []"
    if "CHR '':'' \<notin> set s" for s
    using that by (induction s) auto
  have split_colon: "takeWhile (\<lambda>c. c \<noteq> CHR '':'') (s @ CHR '':'' # t) = s \<and>
      dropWhile (\<lambda>c. c \<noteq> CHR '':'') (s @ CHR '':'' # t) = CHR '':'' # t"
    if "CHR '':'' \<notin> set s" for s t
    using that by (induction s) auto
  have one: "package_of_spec (name @ '':'' @ ver) = \<lparr>Name = Some name, Version = Some ver\<rparr>"
    if "CHR '':'' \<notin> set name \<and> CHR '':'' \<notin> set ver"
  proof -
    from that split_colon [of name ver] no_colon [of ver]
    have "takeWhile (\<lambda>c. c \<noteq> CHR '':'') (name @ '':'' @ ver) = name"
      and "dropWhile (\<lambda>c. c \<noteq> CHR '':'') (name @ '':'' @ ver) = CHR '':'' # ver"
      and "takeWhile (\<lambda>c. c \<noteq> CHR '':'') ver = ver"
      by simp_all
    then show ?thesis
      by (simp only: package_of_spec_eq list.case)
  qed
  have bare: "package_of_spec name = \<lparr>Name = Some name, Version = None\<rparr>"
    if "CHR '':'' \<notin> set name"
  proof -
    from that no_colon [of name]
    have "takeWhile (\<lambda>c. c \<noteq> CHR '':'') name = name"
      and "dropWhile (\<lambda>c. c \<noteq> CHR '':'') name = []"
      by blast+
    then show ?thesis
      by (simp only: package_of_spec_eq list.case)
  qed
  have ex: "parse_packages ''A:1.2.3,B'' =
        [\<lparr>Name = Some ''A'', Version = Some ''1.2.3''\<rparr>, \<lparr>Name = Some ''B'', Version = None\<rparr>]"
    by (simp add: parse_packages_def package_of_spec_def js_index_def)
  have whole: "parse_packages packages =
     map (\<lambda>spec.
            \<lparr>Name = Some (takeWhile (\<lambda>c. c \<noteq> CHR '':'') spec),
             Version = (case dropWhile (\<lambda>c. c \<noteq> CHR '':'') spec of
                          [] \<Rightarrow> None
                        | _ # rest \<Rightarrow> Some (takeWhile (\<lambda>c. c \<noteq> CHR '':'') rest))\<rparr>)
         (js_split CHR '','' packages)"
    by (simp add: parse_packages_map package_of_spec_eq)
  from whole js_join_split [of "CHR '',''" packages] js_split_no_separator [of _ "CHR '',''" packages]
    one bare ex
  show ?thesis by blast
qed

theorem parse_packages_specs_witness:
  "parse_packages ''A:1.2.3,B'' =
     [\<lparr>Name = Some ''A'', Version = Some ''1.2.3''\<rparr>, \<lparr>Name = Some ''B'', Version = None\<rparr>] \<and>
   js_join '','' (js_split CHR '','' ''A:1.2.3,B'') = ''A:1.2.3,B'' \<and>
   list_all (\<lambda>spec. CHR '','' \<notin> set spec) (js_split CHR '','' ''A:1.2.3,B'') \<and>
   package_of_spec ''A:1.2.3'' = \<lparr>Name = Some ''A'', Version = Some ''1.2.3''\<rparr> \<and>
   package_of_spec ''A'' = \<lparr>Name = Some ''A'', Version = None\<rparr>"
  using parse_packages_specs [of "''A:1.2.3,B''" "''A''" "''1.2.3''"]
  by (simp add: list_all_iff)

text \<open>
  C3 as stated fails where a piece has a second colon: the version of \<open>A:1:2\<close> is \<open>1\<close>, not
  the text \<open>1:2\<close> after the first colon.
\<close>

theorem parse_packages_second_colon:
  "parse_packages ''A:1:2'' = [\<lparr>Name = Some ''A'', Version = Some ''1''\<rparr>] \<and>
   parse_packages ''A:1:2'' \<noteq> [\<lparr>Name = Some ''A'', Version = Some ''1:2''\<rparr>]"
  by (simp add: parse_packages_def package_of_spec_def js_index_def)

text \<open>
  C4, as the code has it. Every package reference has a name (the first element of a
  split is never \<open>undefined\<close>), and the names are all non-empty exactly when no piece of
  the input between commas is empty or starts with a colon.
\<close>

theorem parse_packages_names:
  "(\<forall>p \<in> set (parse_packages packages). Name p \<noteq> None) \<and>
   ((\<forall>p \<in> set (parse_packages packages). Name p \<noteq> Some []) \<longleftrightarrow>
    (\<forall>spec \<in> set (js_split CHR '','' packages). spec \<noteq> [] \<and> \<not> prefix '':'' spec))"
proof -
  have name: "Name (package_of_spec spec) = Some (takeWhile (\<lambda>c. c \<noteq> CHR '':'') spec)" for spec
    by (simp add: package_of_spec_eq)
  have empty: "takeWhile (\<lambda>c. c \<noteq> CHR '':'') spec = [] \<longleftrightarrow> spec = [] \<or> prefix '':'' spec"
    for spec
    by (cases spec) auto
  show ?thesis
    by (simp add: parse_packages_map name empty)
qed

theorem parse_packages_names_witness:
  "list_all (\<lambda>p. Name p \<noteq> None) (parse_packages ''A:1.2.3,B'') \<and>
   list_all (\<lambda>p. Name p \<noteq> Some []) (parse_packages ''A:1.2.3,B'') \<and>
   list_all (\<lambda>spec. spec \<noteq> [] \<and> \<not> prefix '':'' spec) (js_split CHR '','' ''A:1.2.3,B'')"
proof -
  have pieces: "\<forall>spec \<in> set (js_split CHR '','' ''A:1.2.3,B''). spec \<noteq> [] \<and> \<not> prefix '':'' spec"
    by simp
  with parse_packages_names [of "''A:1.2.3,B''"] show ?thesis
    by (simp only: list_all_iff) blast
qed

text \<open>
  C4 as stated fails: the input \<open>A,,B\<close> has an empty piece, and its package reference has
  the empty name.
\<close>

theorem parse_packages_empty_name:
  "parse_packages ''A,,B'' =
     [\<lparr>Name = Some ''A'', Version = None\<rparr>, \<lparr>Name = Some [], Version = None\<rparr>,
      \<lparr>Name = Some ''B'', Version = None\<rparr>]"
  by (simp add: parse_packages_def package_of_spec_def js_index_def)

text \<open>
  C5, as the code has it. The additional repository gets \<open>https://\<close> in front when it does
  not start with the four characters \<open>http\<close>, and is taken as it is when it starts with
  \<open>http://\<close> or \<open>https://\<close>; \<open>foo.com/repo\<close> becomes \<open>https://foo.com/repo\<close>. The result is
  the URL of the second repository descriptor.
\<close>

theorem resolve_additional_repository_rule:
  "(\<not> prefix ''http'' additionalRepository \<longrightarrow>
      resolve_additional_repository additionalRepository = ''https://'' @ additionalRepository) \<and>
   (prefix ''http://'' additionalRepository \<or> prefix ''https://'' additionalRepository \<longrightarrow>
      resolve_additional_repository additionalRepository = additionalRepository) \<and>
   resolve_additional_repository ''foo.com/repo'' = ''https://foo.com/repo'' \<and>
   (inp_additional_repository i \<noteq> [] \<longrightarrow>
      snd (collect_repositories h i) = Inr repositories \<longrightarrow>
      map url repositories =
        [''https://packages.opentap.io'',
         resolve_additional_repository (inp_additional_repository i)])"
proof -
  have pre: "prefix ''http'' a" if "prefix ''http://'' a \<or> prefix ''https://'' a" for a
    using that by (auto simp: prefix_def)
  have urls: "map url repositories =
        [''https://packages.opentap.io'',
         resolve_additional_repository (inp_additional_repository i)]"
    if "inp_additional_repository i \<noteq> []" and "snd (collect_repositories h i) = Inr repositories"
    using that
    by (auto simp: collect_repositories_def Let_def run_simps default_repository_def
        split: sum.splits option.splits)
  show ?thesis
    using pre [of additionalRepository] urls
    by (auto simp: resolve_additional_repository_def)
qed

theorem resolve_additional_repository_rule_witness:
  "\<not> prefix ''http'' ''foo.com/repo'' \<and>
   resolve_additional_repository ''foo.com/repo'' = ''https://foo.com/repo'' \<and>
   prefix ''https://'' ''https://my.repo.io'' \<and>
   resolve_additional_repository ''https://my.repo.io'' = ''https://my.repo.io'' \<and>
   inp_additional_repository no_packages_inputs \<noteq> [] \<and>
   snd (collect_repositories runner no_packages_inputs) =
     Inr [default_repository no_packages_inputs,
          \<lparr>url = ''https://foo.com/repo'', domain = ''foo.com'', token = Some ''xyz''\<rparr>] \<and>
   map url [default_repository no_packages_inputs,
            \<lparr>url = ''https://foo.com/repo'', domain = ''foo.com'', token = Some ''xyz''\<rparr>]
     = [''https://packages.opentap.io'',
        resolve_additional_repository (inp_additional_repository no_packages_inputs)]"
proof -
  have bare: "\<not> prefix ''http'' ''foo.com/repo''" and full: "prefix ''https://'' ''https://my.repo.io''"
    by simp_all
  have set: "inp_additional_repository no_packages_inputs \<noteq> []"
    by (simp add: no_packages_inputs_def)
  have repos: "snd (collect_repositories runner no_packages_inputs) =
     Inr [default_repository no_packages_inputs,
          \<lparr>url = ''https://foo.com/repo'', domain = ''foo.com'', token = Some ''xyz''\<rparr>]"
    by (simp add: collect_repositories_def Let_def run_simps resolve_additional_repository_def
        runner_def no_packages_inputs_def)
  from resolve_additional_repository_rule [of "''foo.com/repo''" no_packages_inputs runner
      "[default_repository no_packages_inputs,
        \<lparr>url = ''https://foo.com/repo'', domain = ''foo.com'', token = Some ''xyz''\<rparr>]"]
    resolve_additional_repository_rule [of "''https://my.repo.io''"]
    bare full set repos
  show ?thesis by blast
qed

text \<open>
  C5 as stated fails on an input with a scheme other than http: \<open>ftp://foo.com\<close> is not
  left unchanged.
\<close>

theorem resolve_additional_repository_ftp:
  "resolve_additional_repository ''ftp://foo.com'' = ''https://ftp://foo.com''"
  by (simp add: resolve_additional_repository_def)

text \<open>
  C6, as the code has it. The \<open>os\<close> parameter of the download is the \<open>os\<close> input when it is
  set, and otherwise the tag of the detected platform (\<open>darwin\<close> is \<open>macos\<close>, \<open>win32\<close> is
  \<open>windows\<close>, anything else is \<open>linux\<close>). The directory OpenTAP is extracted to and put
  on the path is that of the detected platform alone, by the table \<open>linux\<close> to \<open>/opt/tap\<close>,
  \<open>windows\<close> to \<open>C:/Program Files/OpenTAP\<close>, \<open>macos\<close> to \<open>/Users/runner/Library/OpenTAP\<close>:
  the \<open>os\<close> input has no part in it.
\<close>

theorem platform_and_directory:
  "last (download_args h i) =
     ''os='' @ (if inp_os i \<noteq> [] then inp_os i else tag (detect_platform (os_platform h))) \<and>
   suffix (''&os='' @
            (if inp_os i \<noteq> [] then inp_os i else tag (detect_platform (os_platform h))))
     (download_url h i) \<and>
   DownloadTool (download_url h i) \<in> set (main h i) \<and>
   (\<forall>f d. ExtractZip f d \<in> set (main h i) \<longrightarrow>
      d = INSTALL_DIRS (detect_platform (os_platform h))) \<and>
   (\<forall>d. AddPath d \<in> set (main h i) \<longrightarrow> d = INSTALL_DIRS (detect_platform (os_platform h))) \<and>
   (\<forall>f. downloadTool h (download_url h i) = Inr f \<longrightarrow>
      ExtractZip f (INSTALL_DIRS (detect_platform (os_platform h))) \<in> set (main h i)) \<and>
   detect_platform ''darwin'' = macos \<and> detect_platform ''win32'' = windows \<and>
   (\<forall>p. p \<noteq> ''darwin'' \<and> p \<noteq> ''win32'' \<longrightarrow> detect_platform p = linux) \<and>
   tag linux = ''linux'' \<and> INSTALL_DIRS linux = ''/opt/tap'' \<and>
   tag windows = ''windows'' \<and> INSTALL_DIRS windows = ''C:/Program Files/OpenTAP'' \<and>
   tag macos = ''macos'' \<and> INSTALL_DIRS macos = ''/Users/runner/Library/OpenTAP''"
proof -
  let ?os = "if inp_os i \<noteq> [] then inp_os i else tag (detect_platform (os_platform h))"
  have arg: "last (download_args h i) = ''os='' @ ?os"
    by (simp add: download_args_eq)
  have "\<exists>pre. download_url h i = pre @ ''&os='' @ ?os"
    by (subst download_url_eq) (simp only: append_assoc [symmetric], blast)
  then have url: "suffix (''&os='' @ ?os) (download_url h i)"
    by (auto simp: suffix_def)
  have dl: "DownloadTool (download_url h i) \<in> set (main h i)"
    using main_start [of h i] by auto
  have dir: "d = INSTALL_DIRS (detect_platform (os_platform h))"
    if "ExtractZip f d \<in> set (main h i)" for f d
    using main_event [OF that] install_opentap_event [of "ExtractZip f d" h i]
      install_packages_event [of "ExtractZip f d" h i]
    by (auto simp: destDir_def)
  have path: "d = INSTALL_DIRS (detect_platform (os_platform h))"
    if "AddPath d \<in> set (main h i)" for d
    using main_event [OF that] install_opentap_event [of "AddPath d" h i]
      install_packages_event [of "AddPath d" h i]
    by (auto simp: destDir_def)
  have extracted: "ExtractZip f (INSTALL_DIRS (detect_platform (os_platform h))) \<in> set (main h i)"
    if "downloadTool h (download_url h i) = Inr f" for f
  proof -
    from install_opentap_after_download [OF that] main_starts_with_install [of h i]
    obtain rest where "main h i =
      [Info (''Downloading OpenTAP: '' @ js_join '','' (download_args h i)),
       DownloadTool (download_url h i),
       Info (''Unzipping OpenTAP: '' @ f)] @ fst (extractZip h f (destDir h)) @ rest"
      by auto
    then show ?thesis
      by (cases h f "destDir h" rule: extractZip_cases) (simp_all add: destDir_def)
  qed
  have detect: "detect_platform ''darwin'' = macos" "detect_platform ''win32'' = windows"
    "\<forall>p. p \<noteq> ''darwin'' \<and> p \<noteq> ''win32'' \<longrightarrow> detect_platform p = linux"
    by (simp_all add: detect_platform_def)
  have dirs: "tag linux = ''linux''" "INSTALL_DIRS linux = ''/opt/tap''"
    "tag windows = ''windows''" "INSTALL_DIRS windows = ''C:/Program Files/OpenTAP''"
    "tag macos = ''macos''" "INSTALL_DIRS macos = ''/Users/runner/Library/OpenTAP''"
    by simp_all
  from arg url dl dir path extracted detect dirs show ?thesis
    by blast
qed

theorem platform_and_directory_witness:
  "inp_os windows_inputs \<noteq> [] \<and>
   last (download_args runner windows_inputs) = ''os=windows'' \<and>
   last (download_args runner demo_inputs) = ''os=linux'' \<and>
   downloadTool runner (download_url runner windows_inputs) = Inr ''/tmp/opentap.zip'' \<and>
   ExtractZip ''/tmp/opentap.zip'' ''/opt/tap'' \<in> set (main runner windows_inputs) \<and>
   ''freebsd'' \<noteq> ''darwin'' \<and> ''freebsd'' \<noteq> ''win32'' \<and> detect_platform ''freebsd'' = linux"
proof -
  have os: "inp_os windows_inputs \<noteq> []" "inp_os windows_inputs = ''windows''"
    "inp_os demo_inputs = []" "os_platform runner = ''linux''"
    by (simp_all add: windows_inputs_def no_packages_inputs_def demo_inputs_def runner_def)
  have dl: "downloadTool runner (download_url runner windows_inputs) = Inr ''/tmp/opentap.zip''"
    by (simp add: runner_def)
  have other: "''freebsd'' \<noteq> ''darwin'' \<and> ''freebsd'' \<noteq> ''win32''"
    by simp
  have dt: "detect_platform ''linux'' = linux"
    by (simp add: detect_platform_def)
  from platform_and_directory [of runner windows_inputs]
    platform_and_directory [of runner demo_inputs] os dl other dt
  show ?thesis by (simp del: last.simps)
qed

text \<open>
  C6 as stated fails: on a Linux runner with the \<open>os\<close> input \<open>windows\<close> the download asks
  for \<open>os=windows\<close> and the archive is extracted to \<open>/opt/tap\<close>, not to the directory of
  the tag \<open>windows\<close>.
\<close>

theorem os_input_does_not_move_install_dir:
  "last (download_args runner windows_inputs) = ''os=windows'' \<and>
   main runner windows_inputs =
     [Info ''Downloading OpenTAP: version=9.20.3,architecture=x64,os=windows'',
      DownloadTool
        ''https://packages.opentap.io/3.0/DownloadPackage/OpenTAP?version=9.20.3&architecture=x64&os=windows'',
      Info ''Unzipping OpenTAP: /tmp/opentap.zip'',
      ExtractZip ''/tmp/opentap.zip'' ''/opt/tap'',
      ExistsSync ''/opt/tap/Settings/'',
      MkdirSync ''/opt/tap/Settings/'',
      Info ''Configuring OpenTAP'',
      Exec ''chmod'' [''+x'', ''/opt/tap/tap''],
      AddPath ''/opt/tap'',
      Exec ''tap'' [''package'', ''list'', ''--installed'']] \<and>
   ExtractZip ''/tmp/opentap.zip'' ''C:/Program Files/OpenTAP''
     \<notin> set (main runner windows_inputs)"
  by (simp add: main_def main_body_def install_opentap_def Let_def andThen_def emit_def
      done_ok_def stop_with_def thrown_def call_exec_def call_mkdirSync_def
      call_existsSync_def call_downloadTool_def extractZip_def download_url_def
      download_args_def detect_platform_def destDir_def settingsDir_def list_args_def
      runner_def windows_inputs_def no_packages_inputs_def)

text \<open>
  C7. The arguments of the download are, in this order, \<open>version=\<close> with the version input
  when it is set and only then, \<open>architecture=\<close> with the architecture input when it is
  set and otherwise \<open>x86\<close> for a host architecture \<open>x32\<close> and \<open>x64\<close> for any other, and
  \<open>os=\<close>; they are joined with \<open>&\<close> after the fixed address, and this URL is the one the
  run downloads. Version \<open>9.21.1\<close> on a Linux x64 host gives
  \<open>version=9.21.1&architecture=x64&os=linux\<close>.
\<close>

theorem download_query:
  "download_args h i =
     (if inp_version i \<noteq> [] then [''version='' @ inp_version i] else []) @
     [''architecture='' @
        (if inp_architecture i \<noteq> [] then inp_architecture i
         else if os_arch h = ''x32'' then ''x86'' else ''x64''),
      ''os='' @
        (if inp_os i \<noteq> [] then inp_os i else tag (detect_platform (os_platform h)))] \<and>
   download_url h i =
     ''https://packages.opentap.io/3.0/DownloadPackage/OpenTAP?'' @
     (if inp_version i \<noteq> [] then ''version='' @ inp_version i @ ''&'' else []) @
     ''architecture='' @
        (if inp_architecture i \<noteq> [] then inp_architecture i
         else if os_arch h = ''x32'' then ''x86'' else ''x64'') @
     ''&os='' @
        (if inp_os i \<noteq> [] then inp_os i else tag (detect_platform (os_platform h))) \<and>
   (\<exists>rest. main h i =
      Info (''Downloading OpenTAP: '' @ js_join '','' (download_args h i)) #
      DownloadTool (download_url h i) # rest) \<and>
   (\<forall>u. DownloadTool u \<in> set (main h i) \<longrightarrow> u = download_url h i) \<and>
   (os_platform h = ''linux'' \<and> os_arch h = ''x64'' \<and> inp_version i = ''9.21.1'' \<and>
    inp_architecture i = [] \<and> inp_os i = [] \<longrightarrow>
      download_url h i =
        ''https://packages.opentap.io/3.0/DownloadPackage/OpenTAP?version=9.21.1&architecture=x64&os=linux'')"
proof -
  have only: "u = download_url h i" if "DownloadTool u \<in> set (main h i)" for u
    using main_event [OF that] install_opentap_event [of "DownloadTool u" h i]
      install_packages_event [of "DownloadTool u" h i]
    by auto
  have example: "download_url h i =
        ''https://packages.opentap.io/3.0/DownloadPackage/OpenTAP?version=9.21.1&architecture=x64&os=linux''"
    if "os_platform h = ''linux'' \<and> os_arch h = ''x64'' \<and> inp_version i = ''9.21.1'' \<and>
        inp_architecture i = [] \<and> inp_os i = []"
    using that by (simp add: download_url_eq detect_platform_def)
  from download_args_eq [of h i] download_url_eq [of h i] main_start [of h i] only example
  show ?thesis by blast
qed

theorem download_query_witness:
  "os_platform runner = ''linux'' \<and> os_arch runner = ''x64'' \<and>
   inp_version demo_inputs = ''9.21.1'' \<and> inp_architecture demo_inputs = [] \<and>
   inp_os demo_inputs = [] \<and>
   download_url runner demo_inputs =
     ''https://packages.opentap.io/3.0/DownloadPackage/OpenTAP?version=9.21.1&architecture=x64&os=linux'' \<and>
   DownloadTool
     ''https://packages.opentap.io/3.0/DownloadPackage/OpenTAP?version=9.21.1&architecture=x64&os=linux''
     \<in> set (main runner demo_inputs)"
proof -
  have given: "os_platform runner = ''linux'' \<and> os_arch runner = ''x64'' \<and>
      inp_version demo_inputs = ''9.21.1'' \<and> inp_architecture demo_inputs = [] \<and>
      inp_os demo_inputs = []"
    by (simp add: runner_def demo_inputs_def)
  from download_query [of runner demo_inputs] given
  have url: "download_url runner demo_inputs =
     ''https://packages.opentap.io/3.0/DownloadPackage/OpenTAP?version=9.21.1&architecture=x64&os=linux''"
    and "\<exists>rest. main runner demo_inputs =
      Info (''Downloading OpenTAP: '' @ js_join '','' (download_args runner demo_inputs)) #
      DownloadTool (download_url runner demo_inputs) # rest"
    by blast+
  then have "DownloadTool (download_url runner demo_inputs) \<in> set (main runner demo_inputs)"
    by auto
  with url given show ?thesis by simp
qed

text \<open>
  C8. The run stops as an extraction failure exactly when the archive was downloaded and
  both \<open>tc.extractZip\<close> and \<open>pwsh\<close> failed on it. After a download, \<open>tc.extractZip\<close> is
  tried first, and \<open>pwsh\<close> is run exactly when it failed, right after it. When both
  failed the trace ends there with the message \<open>Unable to extract zip archive.\<close>, which
  is not the message of the version check: the settings directory is not looked at or
  made, and no further subprocess is run.
\<close>

theorem extraction_fallback:
  "(snd (main_body h i) = Inl Extract_failed \<longleftrightarrow>
      (\<exists>f. downloadTool h (download_url h i) = Inr f \<and>
           tc_extractZip h f (destDir h) \<noteq> None \<and>
           exec h ''pwsh'' (pwsh_args f (destDir h)) \<noteq> None)) \<and>
   (\<forall>f. downloadTool h (download_url h i) = Inr f \<longrightarrow>
      take 4 (main h i) =
        [Info (''Downloading OpenTAP: '' @ js_join '','' (download_args h i)),
         DownloadTool (download_url h i),
         Info (''Unzipping OpenTAP: '' @ f),
         ExtractZip f (destDir h)] \<and>
      (Exec ''pwsh'' (pwsh_args f (destDir h)) \<in> set (main h i) \<longleftrightarrow>
         tc_extractZip h f (destDir h) \<noteq> None) \<and>
      (tc_extractZip h f (destDir h) \<noteq> None \<longrightarrow>
         main h i ! 4 = Exec ''pwsh'' (pwsh_args f (destDir h))) \<and>
      (snd (main_body h i) = Inl Extract_failed \<longrightarrow>
         main h i =
           [Info (''Downloading OpenTAP: '' @ js_join '','' (download_args h i)),
            DownloadTool (download_url h i),
            Info (''Unzipping OpenTAP: '' @ f),
            ExtractZip f (destDir h),
            Exec ''pwsh'' (pwsh_args f (destDir h)),
            SetFailed ''Unable to extract zip archive.''])) \<and>
   failure_message Extract_failed \<noteq> failure_message Version_too_old"
proof -
  have stops: "snd (main_body h i) = Inl Extract_failed \<longleftrightarrow>
      (\<exists>f. downloadTool h (download_url h i) = Inr f \<and>
           tc_extractZip h f (destDir h) \<noteq> None \<and>
           exec h ''pwsh'' (pwsh_args f (destDir h)) \<noteq> None)"
  proof (cases "downloadTool h (download_url h i)")
    case (Inl m)
    from install_opentap_download_fails [OF this] Inl show ?thesis
      by (simp add: main_body_Extract_failed)
  next
    case (Inr f)
    from extraction_after_download [OF this] Inr show ?thesis by simp
  qed
  have distinct: "failure_message Extract_failed \<noteq> failure_message Version_too_old"
    by simp
  from stops extraction_after_download [of h i] distinct show ?thesis
    by blast
qed

theorem extraction_fallback_witness:
  "downloadTool bare_runner (download_url bare_runner demo_inputs) = Inr ''/tmp/opentap.zip'' \<and>
   tc_extractZip bare_runner ''/tmp/opentap.zip'' (destDir bare_runner) \<noteq> None \<and>
   exec bare_runner ''pwsh'' (pwsh_args ''/tmp/opentap.zip'' (destDir bare_runner)) \<noteq> None \<and>
   snd (main_body bare_runner demo_inputs) = Inl Extract_failed \<and>
   main bare_runner demo_inputs =
     [Info (''Downloading OpenTAP: '' @ js_join '','' (download_args bare_runner demo_inputs)),
      DownloadTool (download_url bare_runner demo_inputs),
      Info (''Unzipping OpenTAP: '' @ ''/tmp/opentap.zip''),
      ExtractZip ''/tmp/opentap.zip'' (destDir bare_runner),
      Exec ''pwsh'' (pwsh_args ''/tmp/opentap.zip'' (destDir bare_runner)),
      SetFailed ''Unable to extract zip archive.'']"
proof -
  have dl: "downloadTool bare_runner (download_url bare_runner demo_inputs)
              = Inr ''/tmp/opentap.zip''"
    by (simp add: bare_runner_def runner_def)
  have tc: "tc_extractZip bare_runner ''/tmp/opentap.zip'' (destDir bare_runner) \<noteq> None"
    and ps: "exec bare_runner ''pwsh'' (pwsh_args ''/tmp/opentap.zip'' (destDir bare_runner))
               \<noteq> None"
    by (simp_all add: bare_runner_def runner_def)
  from extraction_fallback [of bare_runner demo_inputs] dl tc ps show ?thesis by blast
qed

text \<open>
  C10. With an empty \<open>packages\<close> input, whatever the version, the tokens and the additional
  repository are: the run never stops at the version check, writes no file at all, and
  runs \<open>tap\<close> only to list the packages. When the installation went through, that call
  is the only one after it and its outcome is the outcome of the run; when it did not, the
  run is the installation's.
\<close>

theorem no_packages_no_install:
  assumes "inp_packages i = []"
  shows "snd (main_body h i) \<noteq> Inl Version_too_old \<and>
         (\<forall>f c. WriteFileSync f c \<notin> set (main h i)) \<and>
         Exec ''tap'' install_args \<notin> set (main h i) \<and>
         (\<forall>as. Exec ''tap'' as \<in> set (main h i) \<longrightarrow> as = list_args) \<and>
         (installed h i \<longrightarrow>
            (\<exists>pre. fst (main_body h i) =
                     pre @ [AddPath (destDir h), Exec ''tap'' list_args] \<and>
                   AddPath (destDir h) \<notin> set pre \<and> Exec ''tap'' list_args \<notin> set pre)) \<and>
         (installed h i \<longrightarrow> snd (main_body h i) = thrown (exec h ''tap'' list_args)) \<and>
         (\<not> installed h i \<longrightarrow> main_body h i = install_opentap h i)"
proof -
  have no_gate: "snd (main_body h i) \<noteq> Inl Version_too_old"
    using main_body_too_old(2) [of h i] assms by blast
  have event: "e \<in> set (fst (install_opentap h i)) \<or> e = Exec ''tap'' list_args \<or>
      (\<exists>m. e = SetFailed m)" if "e \<in> set (main h i)" for e
    using main_event [OF that] assms by blast
  have no_write: "WriteFileSync f c \<notin> set (main h i)" for f c
    using event [of "WriteFileSync f c"] install_opentap_event [of "WriteFileSync f c" h i]
    by auto
  have only_list: "as = list_args" if "Exec ''tap'' as \<in> set (main h i)" for as
    using event [OF that] install_opentap_event [of "Exec ''tap'' as" h i]
    by auto
  have no_install: "Exec ''tap'' install_args \<notin> set (main h i)"
    using only_list [of install_args] by (auto simp: install_args_def list_args_def)
  have after: "\<exists>pre. fst (main_body h i) =
                     pre @ [AddPath (destDir h), Exec ''tap'' list_args] \<and>
                   AddPath (destDir h) \<notin> set pre \<and> Exec ''tap'' list_args \<notin> set pre"
    and result: "snd (main_body h i) = thrown (exec h ''tap'' list_args)"
    if "installed h i"
  proof -
    from that have ok: "snd (install_opentap h i) = Inr ()"
      by (simp add: installed_def)
    from install_opentap_done [OF ok] obtain pre
      where pre: "fst (install_opentap h i) = pre @ [AddPath (destDir h)]"
        and fresh: "AddPath (destDir h) \<notin> set pre"
      by blast
    have "Exec ''tap'' list_args \<notin> set pre"
    proof
      assume "Exec ''tap'' list_args \<in> set pre"
      with pre have "Exec ''tap'' list_args \<in> set (fst (install_opentap h i))" by simp
      from install_opentap_event [OF this] show False by auto
    qed
    with pre fresh main_body_no_packages [OF ok assms]
    show "\<exists>pre. fst (main_body h i) =
                     pre @ [AddPath (destDir h), Exec ''tap'' list_args] \<and>
                   AddPath (destDir h) \<notin> set pre \<and> Exec ''tap'' list_args \<notin> set pre"
      by simp
    from main_body_no_packages [OF ok assms]
    show "snd (main_body h i) = thrown (exec h ''tap'' list_args)" by simp
  qed
  have stopped: "main_body h i = install_opentap h i" if "\<not> installed h i"
  proof (cases "snd (install_opentap h i)")
    case (Inl s)
    from main_body_not_installed [OF this] Inl show ?thesis
      by (cases "install_opentap h i") simp
  next
    case (Inr u)
    with that show ?thesis by (simp add: installed_def)
  qed
  from no_gate no_write no_install only_list after result stopped show ?thesis
    by blast
qed

theorem no_packages_no_install_witness:
  "inp_packages no_packages_inputs = [] \<and>
   inp_version no_packages_inputs = ''9.20.3'' \<and> inp_token no_packages_inputs = ''abc'' \<and>
   inp_additional_repository no_packages_inputs = ''foo.com/repo'' \<and>
   installed runner no_packages_inputs \<and>
   snd (main_body runner no_packages_inputs) = Inr () \<and>
   (\<forall>f c. WriteFileSync f c \<notin> set (main runner no_packages_inputs)) \<and>
   Exec ''tap'' install_args \<notin> set (main runner no_packages_inputs) \<and>
   \<not> installed bare_runner no_packages_inputs \<and>
   main_body bare_runner no_packages_inputs = install_opentap bare_runner no_packages_inputs"
proof -
  have none: "inp_packages no_packages_inputs = []"
    and given: "inp_version no_packages_inputs = ''9.20.3''"
      "inp_token no_packages_inputs = ''abc''"
      "inp_additional_repository no_packages_inputs = ''foo.com/repo''"
    by (simp_all add: no_packages_inputs_def)
  have inst: "installed runner no_packages_inputs"
    by (simp add: installed_def install_opentap_def Let_def run_simps extractZip_def
        runner_def no_packages_inputs_def)
  have bare: "\<not> installed bare_runner no_packages_inputs"
    by (simp add: installed_def install_opentap_def Let_def run_simps extractZip_def
        bare_runner_def runner_def no_packages_inputs_def)
  have listed: "thrown (exec runner ''tap'' list_args) = Inr ()"
    by (simp add: thrown_def runner_def)
  from no_packages_no_install [OF none, of runner] no_packages_no_install [OF none, of bare_runner]
    none given inst bare listed
  show ?thesis by simp
qed

end
